theory Spec2Isabelle
  imports Complex_Main "HOL-Library.AList"
begin

section \<open>JavaScript values\<close>

text \<open>
  The orchestrator of Rollizr moves three kinds of data around: the values that
  \<^verbatim>\<open>JSON.parse\<close> produces from the text of a generation response, the result objects
  that \<^verbatim>\<open>BaseAgent.execute\<close> builds, and exceptions. A number of JavaScript is a
  double; the only operations the code applies to one are the truthiness test and the
  comparison \<^verbatim>\<open>< 50\<close>, so a finite double is kept as the rational it denotes, and the two
  infinities (which \<^verbatim>\<open>JSON.parse\<close> returns on overflow) are kept apart. A string is a list
  of code units; the model uses \<^typ>\<open>char\<close>, that is, the code units below 256.
  An object is the list of its own properties in insertion order (\<^verbatim>\<open>JSON.parse\<close> keeps
  one entry per key); \<open>None\<close> of type \<^typ>\<open>'a option\<close> stands for \<^verbatim>\<open>undefined\<close>.
\<close>

datatype jsnum = Fin rat | PInf | NInf

datatype json =
    JNull
  | JBool bool
  | JNum jsnum
  | JStr string
  | JArr "json list"
  | JObj "(string \<times> json) list"

datatype exn = Error string | TypeError string

fun message :: "exn \<Rightarrow> string" where
  "message (Error m) = m"
| "message (TypeError m) = m"

text \<open>\<^verbatim>\<open>if (v)\<close> and \<^verbatim>\<open>!v\<close> on a value.\<close>

fun truthy :: "json \<Rightarrow> bool" where
  "truthy JNull = False"
| "truthy (JBool b) = b"
| "truthy (JNum n) = (n \<noteq> Fin 0)"
| "truthy (JStr s) = (s \<noteq> [])"
| "truthy (JArr xs) = True"
| "truthy (JObj kvs) = True"

fun truthy_opt :: "json option \<Rightarrow> bool" where
  "truthy_opt None = False"
| "truthy_opt (Some v) = truthy v"

text \<open>
  The property read \<^verbatim>\<open>v.k\<close>, for the names the orchestrator reads (\<^verbatim>\<open>score\<close>,
  \<^verbatim>\<open>approved\<close>, \<^verbatim>\<open>violations\<close>, \<^verbatim>\<open>risks\<close>, \<^verbatim>\<open>details\<close>, \<^verbatim>\<open>top_signals\<close>,
  \<^verbatim>\<open>estimated_value_range\<close>): none of them is a property of a prototype, so the read
  of an object gives its own property or \<^verbatim>\<open>undefined\<close>, the read of another
  primitive, or of an array, gives \<^verbatim>\<open>undefined\<close>, and the read of \<^verbatim>\<open>undefined\<close> or
  \<^verbatim>\<open>null\<close> throws a TypeError (the message is V8's).
\<close>

definition cannot_read :: "string \<Rightarrow> string \<Rightarrow> exn" where
  "cannot_read what k =
     TypeError (''Cannot read properties of '' @ what @ '' (reading '' @ [CHR 0x27] @ k @ [CHR 0x27] @ '')'')"

fun member :: "json option \<Rightarrow> string \<Rightarrow> exn + json option" where
  "member None k = Inl (cannot_read ''undefined'' k)"
| "member (Some JNull) k = Inl (cannot_read ''null'' k)"
| "member (Some (JObj kvs)) k = Inr (map_of kvs k)"
| "member (Some v) k = Inr None"

section \<open>The platform\<close>

text \<open>
  What the code calls and the repository does not define is a parameter of the model:
  \<^item> \<open>JSON_parse\<close> is \<^verbatim>\<open>JSON.parse\<close> on a string, \<open>None\<close> when it throws a SyntaxError;
  \<^item> \<open>sendMessage\<close> is the outcome of \<^verbatim>\<open>ClaudeClient.sendMessage\<close> for the \<open>n\<close>-th
    request of a run (counted from 0). The method wraps the SDK call in \<^verbatim>\<open>try/catch\<close> and
    returns either \<^verbatim>\<open>{success: true, content: response.content[0].text, ...}\<close>, whose
    \<^verbatim>\<open>content\<close> is \<^verbatim>\<open>undefined\<close> when the first block of the response carries no
    text, or \<^verbatim>\<open>{success: false, error: error.message}\<close>. The failure carries the message
    as \<^verbatim>\<open>new Error(response.error).message\<close> reads it back;
  \<^item> \<open>less_than_50\<close> is the comparison \<^verbatim>\<open>v < 50\<close> for a string, an array or an object
    \<open>v\<close>, which goes through ToPrimitive and ToNumber and may throw.
  Every theorem below holds for every platform.
\<close>

datatype send_result = SendOk "string option" | SendFailed string

record platform =
  JSON_parse :: "string \<Rightarrow> json option"
  sendMessage :: "nat \<Rightarrow> send_result"
  less_than_50 :: "json \<Rightarrow> exn + bool"

text \<open>\<^verbatim>\<open>n < 50\<close> on a number, and \<^verbatim>\<open>v < 50\<close> on any value or \<^verbatim>\<open>undefined\<close>.\<close>

fun num_lt_50 :: "jsnum \<Rightarrow> bool" where
  "num_lt_50 (Fin q) = (q < 50)"
| "num_lt_50 PInf = False"
| "num_lt_50 NInf = True"

fun lt_50 :: "platform \<Rightarrow> json option \<Rightarrow> exn + bool" where
  "lt_50 P None = Inr False"
| "lt_50 P (Some JNull) = Inr True"
| "lt_50 P (Some (JBool b)) = Inr True"
| "lt_50 P (Some (JNum n)) = Inr (num_lt_50 n)"
| "lt_50 P (Some v) = less_than_50 P v"

section \<open>Response extraction: \<^verbatim>\<open>ClaudeClient.parseJSON\<close> and \<^verbatim>\<open>BaseAgent._parseResponse\<close>\<close>

text \<open>
  The two regular expressions of \<^verbatim>\<open>parseJSON\<close> are modelled as the backtracking matcher
  runs them: start positions from left to right, a greedy star from the longest choice
  down, a lazy star from the shortest choice up.

  \<^verbatim>\<open>\s\<close> on code units below 256: tab, line feed, vertical tab, form feed, carriage
  return, space and no-break space.
\<close>

definition is_space :: "char \<Rightarrow> bool" where
  "is_space c = (c \<in> set [CHR 0x09, CHR 0x0A, CHR 0x0B, CHR 0x0C, CHR 0x0D, CHR 0x20, CHR 0xA0])"

definition starts_with :: "string \<Rightarrow> string \<Rightarrow> bool" where
  "starts_with p t = (take (length p) t = p)"

text \<open>\<^verbatim>\<open>\s*```\<close> at the head of \<open>t\<close>: a backtick is no blank, so only the longest run of
  blanks can be followed by the fence.\<close>

definition closes_here :: "string \<Rightarrow> bool" where
  "closes_here t = starts_with ''```'' (dropWhile is_space t)"

text \<open>\<^verbatim>\<open>([\s\S]*?)\s*```\<close> at the head of \<open>t\<close>: the shortest capture after which the
  closing fence matches.\<close>

fun lazy_capture :: "string \<Rightarrow> string option" where
  "lazy_capture [] = (if closes_here [] then Some [] else None)"
| "lazy_capture (c # cs) =
     (if closes_here (c # cs) then Some [] else map_option ((#) c) (lazy_capture cs))"

text \<open>\<^verbatim>\<open>\s*([\s\S]*?)\s*```\<close> at the head of \<open>t\<close>, the first star having taken \<open>k\<close>
  blanks and giving them back one at a time.\<close>

fun skip_space :: "nat \<Rightarrow> string \<Rightarrow> string option" where
  "skip_space 0 t = lazy_capture t"
| "skip_space (Suc k) t =
     (case lazy_capture (drop (Suc k) t) of
        Some cap \<Rightarrow> Some cap
      | None \<Rightarrow> skip_space k t)"

definition fence_at :: "string \<Rightarrow> string option" where
  "fence_at t =
     (if starts_with ''```json'' t
      then skip_space (length (takeWhile is_space (drop 7 t))) (drop 7 t)
      else None)"

text \<open>\<^verbatim>\<open>content.match(/```json\s*([\s\S]*?)\s*```/)\<close>: \<open>None\<close> is no match, \<open>Some cap\<close> is
  the text of group 1.\<close>

fun jsonMatch :: "string \<Rightarrow> string option" where
  "jsonMatch [] = fence_at []"
| "jsonMatch (c # cs) =
     (case fence_at (c # cs) of
        Some cap \<Rightarrow> Some cap
      | None \<Rightarrow> jsonMatch cs)"

text \<open>\<^verbatim>\<open>[\s\S]*\}\<close> at the head of \<open>t\<close>: the longest match.\<close>

fun greedy_close :: "string \<Rightarrow> string option" where
  "greedy_close [] = None"
| "greedy_close (c # cs) =
     (case greedy_close cs of
        Some m \<Rightarrow> Some (c # m)
      | None \<Rightarrow> if c = CHR 0x7D then Some [c] else None)"

text \<open>\<^verbatim>\<open>content.match(/\{[\s\S]*\}/)\<close>: \<open>None\<close> is no match, \<open>Some m\<close> is the matched
  text (group 0).\<close>

fun objectMatch :: "string \<Rightarrow> string option" where
  "objectMatch [] = None"
| "objectMatch (c # cs) =
     (if c = CHR 0x7B
      then (case greedy_close cs of
              Some m \<Rightarrow> Some (c # m)
            | None \<Rightarrow> objectMatch cs)
      else objectMatch cs)"

text \<open>
  \<^verbatim>\<open>parseJSON(content)\<close>. The value \<^verbatim>\<open>null\<close> that the method returns when it gives up is
  \<open>JNull\<close>, the same value as a parsed \<^verbatim>\<open>null\<close>. When \<^verbatim>\<open>content\<close> is \<^verbatim>\<open>undefined\<close>,
  \<^verbatim>\<open>JSON.parse\<close> throws and \<^verbatim>\<open>content.match\<close> in the handler throws a TypeError, which
  leaves the method.
\<close>

definition parse_or_null :: "platform \<Rightarrow> string \<Rightarrow> json" where
  "parse_or_null P t = (case JSON_parse P t of Some v \<Rightarrow> v | None \<Rightarrow> JNull)"

fun parseJSON :: "platform \<Rightarrow> string option \<Rightarrow> exn + json" where
  "parseJSON P None = Inl (cannot_read ''undefined'' ''match'')"
| "parseJSON P (Some content) =
     (case JSON_parse P content of
        Some v \<Rightarrow> Inr v
      | None \<Rightarrow>
          (case jsonMatch content of
             Some cap \<Rightarrow> Inr (parse_or_null P cap)
           | None \<Rightarrow>
               (case objectMatch content of
                  Some m \<Rightarrow> Inr (parse_or_null P m)
                | None \<Rightarrow> Inr JNull)))"

text \<open>
  \<^verbatim>\<open>_parseResponse(content)\<close> returns the parsed value when it is truthy and the
  wrapper \<^verbatim>\<open>{rawResponse: content, parsed: false}\<close> otherwise. A property whose value
  is \<^verbatim>\<open>undefined\<close> reads like an absent one, and is written as absent.
\<close>

fun raw_wrapper :: "string option \<Rightarrow> json" where
  "raw_wrapper (Some content) = JObj [(''rawResponse'', JStr content), (''parsed'', JBool False)]"
| "raw_wrapper None = JObj [(''parsed'', JBool False)]"

definition parseResponse :: "platform \<Rightarrow> string option \<Rightarrow> exn + json" where
  "parseResponse P content =
     (case parseJSON P content of
        Inl e \<Rightarrow> Inl e
      | Inr parsed \<Rightarrow> if truthy parsed then Inr parsed else Inr (raw_wrapper content))"

text \<open>
  The outer brace span in the words of the specification: the substring from the first
  opening brace of the text through its last closing brace. \<open>first_open\<close> and
  \<open>last_close\<close> are the indices that \<^verbatim>\<open>indexOf("{")\<close> and \<^verbatim>\<open>lastIndexOf("}")\<close> give when
  the text has such characters.
\<close>

definition first_open :: "string \<Rightarrow> nat" where
  "first_open t = length (takeWhile (\<lambda>c. c \<noteq> CHR 0x7B) t)"

definition last_close :: "string \<Rightarrow> nat" where
  "last_close t = length t - Suc (length (takeWhile (\<lambda>c. c \<noteq> CHR 0x7D) (rev t)))"

definition outer_brace_span :: "string \<Rightarrow> string" where
  "outer_brace_span t = take (Suc (last_close t) - first_open t) (drop (first_open t) t)"

section \<open>The agent table: \<^verbatim>\<open>src/config/agents.js\<close> and \<^verbatim>\<open>src/agents/index.js\<close>\<close>

text \<open>
  \<^verbatim>\<open>agents[key] = new BaseAgent(config)\<close> for each entry of \<^verbatim>\<open>AGENT_CONFIGS\<close>. Of an
  agent, control flow reads only \<^verbatim>\<open>name\<close> and \<^verbatim>\<open>role\<close>; the description, the system
  prompt, \<^verbatim>\<open>maxTokens\<close> and \<^verbatim>\<open>temperature\<close> only go into the request.
\<close>

record BaseAgent =
  name :: string
  agent_role :: string

definition AGENT_CONFIGS :: "(string \<times> BaseAgent) list" where
  "AGENT_CONFIGS =
    [(''scout'', \<lparr>name = ''Scout Agent'', agent_role = ''target_discovery''\<rparr>),
     (''resolver'', \<lparr>name = ''Resolver Agent'', agent_role = ''entity_resolution''\<rparr>),
     (''profiler'', \<lparr>name = ''Profiler Agent'', agent_role = ''company_enrichment''\<rparr>),
     (''valuation'', \<lparr>name = ''Valuation Agent'', agent_role = ''business_valuation''\<rparr>),
     (''compliance'', \<lparr>name = ''Compliance Agent'', agent_role = ''regulatory_compliance''\<rparr>),
     (''outreach'', \<lparr>name = ''Outreach Agent'', agent_role = ''communication''\<rparr>),
     (''diligence'', \<lparr>name = ''Diligence Agent'', agent_role = ''due_diligence''\<rparr>),
     (''integrator'', \<lparr>name = ''Integrator Agent'', agent_role = ''post_acquisition''\<rparr>)]"

text \<open>
  \<^verbatim>\<open>this.agents[agentKey]\<close>. The table is a plain object literal, so a key that is not
  its own is looked up in \<^verbatim>\<open>Object.prototype\<close>, whose properties are all truthy and
  none of which has an \<^verbatim>\<open>execute\<close> method.
\<close>

definition Object_prototype :: "string list" where
  "Object_prototype =
    [''constructor'', ''__proto__'', ''hasOwnProperty'', ''isPrototypeOf'',
     ''propertyIsEnumerable'', ''toLocaleString'', ''toString'', ''valueOf'',
     ''__defineGetter__'', ''__defineSetter__'', ''__lookupGetter__'', ''__lookupSetter__'']"

datatype 'a property = Own 'a | Inherited | Undefined

definition agents :: "string \<Rightarrow> BaseAgent property" where
  "agents agentKey =
     (case map_of AGENT_CONFIGS agentKey of
        Some a \<Rightarrow> Own a
      | None \<Rightarrow> if agentKey \<in> set Object_prototype then Inherited else Undefined)"

section \<open>The agent runner: \<^verbatim>\<open>BaseAgent.execute\<close>\<close>

text \<open>
  The state of a run: \<open>calls\<close> lists the names of the agents whose runner has sent a
  request to the generation client, in the order of sending, and \<open>workflowHistory\<close> is
  the orchestrator's log, one entry \<^verbatim>\<open>{agent, success}\<close> per completed execution. Wall
  clock values (\<^verbatim>\<open>timestamp\<close>, \<^verbatim>\<open>executionTime\<close>) and token counts are left out of
  entries and results.
\<close>

record world =
  calls :: "string list"
  workflowHistory :: "(string \<times> bool) list"

type_synonym jsobject = "(string \<times> json option) list"

text \<open>
  The result object of \<^verbatim>\<open>execute\<close>: \<^verbatim>\<open>output\<close> and \<^verbatim>\<open>error\<close> are \<open>None\<close> when the
  object has no such property.
\<close>

record exec_result =
  success :: bool
  agent :: string
  role :: string
  "output" :: "json option"
  error :: "string option"

text \<open>
  The body of the \<^verbatim>\<open>try\<close> block for the \<open>n\<close>-th request: \<open>Inl\<close> is the exception that
  reaches the \<^verbatim>\<open>catch\<close>, \<open>Inr\<close> the parsed output. The input and the context are
  values that \<^verbatim>\<open>JSON.stringify\<close> accepts, so building the message does not throw.
\<close>

definition attempt :: "platform \<Rightarrow> nat \<Rightarrow> exn + json" where
  "attempt P n =
     (case sendMessage P n of
        SendFailed msg \<Rightarrow> Inl (Error msg)
      | SendOk content \<Rightarrow> parseResponse P content)"

text \<open>
  \<open>result_of P a n\<close> is the object that \<^verbatim>\<open>execute\<close> returns when its request is the
  \<open>n\<close>-th one: the literal of the \<^verbatim>\<open>try\<close> block or the one of the \<^verbatim>\<open>catch\<close> block.
\<close>

definition result_of :: "platform \<Rightarrow> BaseAgent \<Rightarrow> nat \<Rightarrow> exec_result" where
  "result_of P a n =
     (case attempt P n of
        Inr out \<Rightarrow>
          \<lparr>success = True, agent = name a, role = agent_role a,
           output = Some out, error = None\<rparr>
      | Inl e \<Rightarrow>
          \<lparr>success = False, agent = name a, role = agent_role a,
           output = None, error = Some (message e)\<rparr>)"

definition execute ::
  "platform \<Rightarrow> BaseAgent \<Rightarrow> json option \<Rightarrow> jsobject \<Rightarrow> world \<Rightarrow> exec_result \<times> world" where
  "execute P a input context w =
     (result_of P a (length (calls w)), w\<lparr>calls := calls w @ [name a]\<rparr>)"

section \<open>The orchestrator: primitives\<close>

definition not_found :: "string \<Rightarrow> exn" where
  "not_found agentKey = Error (''Agent '' @ [CHR 0x27] @ agentKey @ [CHR 0x27] @ '' not found'')"

text \<open>
  \<^verbatim>\<open>executeAgent\<close> is an \<^verbatim>\<open>async\<close> function: \<open>Inl\<close> is the rejection of its promise.
  A key found in the prototype passes the guard and fails at the call of
  \<^verbatim>\<open>agent.execute\<close>.
\<close>

definition executeAgent ::
  "platform \<Rightarrow> string \<Rightarrow> json option \<Rightarrow> jsobject \<Rightarrow> world \<Rightarrow> (exn + exec_result) \<times> world" where
  "executeAgent P agentKey input context w =
     (case agents agentKey of
        Undefined \<Rightarrow> (Inl (not_found agentKey), w)
      | Inherited \<Rightarrow> (Inl (TypeError ''agent.execute is not a function''), w)
      | Own a \<Rightarrow>
          (case execute P a input context w of
             (result, w') \<Rightarrow>
               (Inr result,
                w'\<lparr>workflowHistory := workflowHistory w' @ [(agentKey, success result)]\<rparr>)))"


text \<open>
  The two objects that \<^verbatim>\<open>executePipeline\<close> returns:
  \<^verbatim>\<open>{success: false, failedAt, results, error}\<close> and
  \<^verbatim>\<open>{success: true, results, finalOutput, context}\<close>.
\<close>

datatype pipeline_result =
    PipelineFailed string "exec_result list" "string option"
  | PipelineDone "exec_result list" "json option" jsobject

fun pipeline_success :: "pipeline_result \<Rightarrow> bool" where
  "pipeline_success (PipelineFailed agentName rs err) = False"
| "pipeline_success (PipelineDone rs finalOutput context) = True"

fun failedAt :: "pipeline_result \<Rightarrow> string option" where
  "failedAt (PipelineFailed agentName rs err) = Some agentName"
| "failedAt (PipelineDone rs finalOutput context) = None"

fun pipeline_error :: "pipeline_result \<Rightarrow> string option" where
  "pipeline_error (PipelineFailed agentName rs err) = err"
| "pipeline_error (PipelineDone rs finalOutput context) = None"

fun pipeline_results :: "pipeline_result \<Rightarrow> exec_result list" where
  "pipeline_results (PipelineFailed agentName rs err) = rs"
| "pipeline_results (PipelineDone rs finalOutput context) = rs"

text \<open>
  \<^verbatim>\<open>executePipeline\<close>: the \<^verbatim>\<open>for\<close> loop over the remaining keys, then the return after
  the loop, where \<^verbatim>\<open>results[results.length - 1]\<close> is \<^verbatim>\<open>undefined\<close> for an empty
  sequence.
\<close>

fun pipeline_loop ::
  "platform \<Rightarrow> string list \<Rightarrow> exec_result list \<Rightarrow> json option \<Rightarrow> jsobject \<Rightarrow> world
     \<Rightarrow> (exn + pipeline_result) \<times> world" where
  "pipeline_loop P [] results currentInput context w =
     (case results of
        [] \<Rightarrow> (Inl (cannot_read ''undefined'' ''output''), w)
      | _ # _ \<Rightarrow> (Inr (PipelineDone results (output (last results)) context), w))"
| "pipeline_loop P (agentKey # rest) results currentInput context w =
     (case executeAgent P agentKey currentInput context w of
        (Inl e, w') \<Rightarrow> (Inl e, w')
      | (Inr result, w') \<Rightarrow>
          if \<not> success result
          then (Inr (PipelineFailed (agent result) (results @ [result]) (error result)), w')
          else pipeline_loop P rest (results @ [result]) (output result)
                 (AList.update (role result) (output result) context) w')"

definition executePipeline ::
  "platform \<Rightarrow> string list \<Rightarrow> json option \<Rightarrow> world \<Rightarrow> (exn + pipeline_result) \<times> world" where
  "executePipeline P agentSequence initialInput w =
     pipeline_loop P agentSequence [] initialInput [] w"

text \<open>
  \<^verbatim>\<open>executeParallel\<close>. \<^verbatim>\<open>agentKeys.map\<close> calls \<^verbatim>\<open>executeAgent\<close> for each key in turn, and
  each call runs up to the sending of its request before the next one starts, so the
  requests go out in list order. The log entries are appended as the responses arrive;
  they are written here in list order, which is one of the possible orders.
  \<^verbatim>\<open>Promise.all\<close> rejects with the first rejection: the only promises that reject are
  those of keys without an agent, which are rejected from the start, so the first in
  list order wins.
\<close>

fun map_executeAgent ::
  "platform \<Rightarrow> string list \<Rightarrow> json option \<Rightarrow> jsobject \<Rightarrow> world
     \<Rightarrow> (exn + exec_result) list \<times> world" where
  "map_executeAgent P [] input context w = ([], w)"
| "map_executeAgent P (agentKey # rest) input context w =
     (case executeAgent P agentKey input context w of
        (p, w') \<Rightarrow>
          (case map_executeAgent P rest input context w' of
             (ps, w'') \<Rightarrow> (p # ps, w'')))"

fun Promise_all :: "(exn + 'a) list \<Rightarrow> exn + 'a list" where
  "Promise_all [] = Inr []"
| "Promise_all (Inl e # ps) = Inl e"
| "Promise_all (Inr x # ps) =
     (case Promise_all ps of
        Inl e \<Rightarrow> Inl e
      | Inr xs \<Rightarrow> Inr (x # xs))"

record parallel_result =
  all_success :: bool
  all_results :: "exec_result list"
  outputs :: jsobject

definition executeParallel ::
  "platform \<Rightarrow> string list \<Rightarrow> json option \<Rightarrow> jsobject \<Rightarrow> world
     \<Rightarrow> (exn + parallel_result) \<times> world" where
  "executeParallel P agentKeys input context w =
     (case map_executeAgent P agentKeys input context w of
        (promises, w') \<Rightarrow>
          (case Promise_all promises of
             Inl e \<Rightarrow> (Inl e, w')
           | Inr results \<Rightarrow>
               (Inr \<lparr>all_success = list_all success results,
                     all_results = results,
                     outputs = fold (\<lambda>r acc. AList.update (role r) (output r) acc) results []\<rparr>,
                w')))"

section \<open>The orchestrator: named workflows\<close>

text \<open>
  An object literal that a workflow hands to an agent as its input. The runner only
  serialises it with \<^verbatim>\<open>JSON.stringify\<close>, which leaves out the properties whose value is
  \<^verbatim>\<open>undefined\<close>.
\<close>

definition literal :: "jsobject \<Rightarrow> json" where
  "literal ps = JObj (List.map_filter (\<lambda>(k, v). map_option (Pair k) v) ps)"

text \<open>The spread \<^verbatim>\<open>...v\<close> inside an array literal: arrays and strings are the iterable
  values here.\<close>

fun spread :: "json option \<Rightarrow> exn + json option list" where
  "spread (Some (JArr xs)) = Inr (map Some xs)"
| "spread (Some (JStr s)) = Inr (map (\<lambda>c. Some (JStr [c])) s)"
| "spread v = Inl (TypeError ''scoutResult.output.risks is not iterable'')"

text \<open>\<^verbatim>\<open>violations.map((v) => v.details)\<close>.\<close>

fun details_of :: "json list \<Rightarrow> exn + json option list" where
  "details_of [] = Inr []"
| "details_of (v # vs) =
     (case member (Some v) ''details'' of
        Inl e \<Rightarrow> Inl e
      | Inr d \<Rightarrow>
          (case details_of vs of
             Inl e \<Rightarrow> Inl e
           | Inr ds \<Rightarrow> Inr (d # ds)))"

fun map_details :: "json option \<Rightarrow> exn + json option list" where
  "map_details None = Inl (cannot_read ''undefined'' ''map'')"
| "map_details (Some JNull) = Inl (cannot_read ''null'' ''map'')"
| "map_details (Some (JArr vs)) = details_of vs"
| "map_details (Some v) =
     Inl (TypeError ''complianceResult.output.violations.map is not a function'')"

record summary =
  score :: "json option"
  estimatedValue :: "json option"
  topSignals :: "json option"
  risks :: "json option list"

text \<open>The \<^verbatim>\<open>summary\<close> of a qualified company, its properties evaluated in source order.\<close>

definition build_summary :: "exec_result \<Rightarrow> exec_result \<Rightarrow> exec_result \<Rightarrow> exn + summary" where
  "build_summary scoutR valuationR complianceR =
     (case member (output scoutR) ''score'' of
        Inl e \<Rightarrow> Inl e
      | Inr sc \<Rightarrow>
     (case member (output valuationR) ''estimated_value_range'' of
        Inl e \<Rightarrow> Inl e
      | Inr ev \<Rightarrow>
     (case member (output scoutR) ''top_signals'' of
        Inl e \<Rightarrow> Inl e
      | Inr ts \<Rightarrow>
     (case member (output scoutR) ''risks'' of
        Inl e \<Rightarrow> Inl e
      | Inr rk \<Rightarrow>
     (case spread rk of
        Inl e \<Rightarrow> Inl e
      | Inr rs \<Rightarrow>
     (case member (output complianceR) ''violations'' of
        Inl e \<Rightarrow> Inl e
      | Inr vio \<Rightarrow>
     (case map_details vio of
        Inl e \<Rightarrow> Inl e
      | Inr ds \<Rightarrow>
          Inr \<lparr>score = sc, estimatedValue = ev, topSignals = ts, risks = rs @ ds\<rparr>)))))))"

text \<open>
  The object that \<^verbatim>\<open>executeSourcingWorkflow\<close> returns; a property that the returned
  literal does not have is \<open>None\<close> (or the empty list for \<^verbatim>\<open>results\<close>).
\<close>

record sourcing_result =
  wf_success :: bool
  "qualified" :: bool
  reason :: "string option"
  scoutResult :: "exec_result option"
  results :: "(string \<times> exec_result) list"
  summary :: "summary option"

definition executeSourcingWorkflow ::
  "platform \<Rightarrow> json option \<Rightarrow> json option \<Rightarrow> world \<Rightarrow> (exn + sourcing_result) \<times> world" where
  "executeSourcingWorkflow P thesis companyData w =
     (case executeAgent P ''scout''
             (Some (literal [(''thesis'', thesis), (''companyData'', companyData)])) [] w of
        (Inl e, w1) \<Rightarrow> (Inl e, w1)
      | (Inr scoutR, w1) \<Rightarrow>
     (case (if \<not> success scoutR then Inr True
            else (case member (output scoutR) ''score'' of
                    Inl e \<Rightarrow> Inl e
                  | Inr sc \<Rightarrow> lt_50 P sc)) of
        Inl e \<Rightarrow> (Inl e, w1)
      | Inr True \<Rightarrow>
          (Inr \<lparr>wf_success = True, qualified = False,
                reason = Some ''Did not meet minimum score threshold'',
                scoutResult = Some scoutR, results = [], summary = None\<rparr>, w1)
      | Inr False \<Rightarrow>
     (case executeAgent P ''profiler'' companyData
             [(''scoutAnalysis'', output scoutR)] w1 of
        (Inl e, w2) \<Rightarrow> (Inl e, w2)
      | (Inr profilerR, w2) \<Rightarrow>
     (case executeAgent P ''valuation'' companyData
             [(''scoutAnalysis'', output scoutR), (''profile'', output profilerR)] w2 of
        (p1, w3) \<Rightarrow>
     (case executeAgent P ''compliance'' companyData
             [(''checkType'', Some (JStr ''licensure''))] w3 of
        (p2, w4) \<Rightarrow>
     (case (p1, p2) of
        (Inl e, _) \<Rightarrow> (Inl e, w4)
      | (Inr _, Inl e) \<Rightarrow> (Inl e, w4)
      | (Inr valuationR, Inr complianceR) \<Rightarrow>
     (case member (output complianceR) ''approved'' of
        Inl e \<Rightarrow> (Inl e, w4)
      | Inr approved \<Rightarrow>
          if \<not> truthy_opt approved
          then (Inr \<lparr>wf_success = True, qualified = False,
                     reason = Some ''Failed compliance checks'',
                     scoutResult = None,
                     results = [(''scout'', scoutR), (''profiler'', profilerR),
                                (''compliance'', complianceR)],
                     summary = None\<rparr>, w4)
          else (case build_summary scoutR valuationR complianceR of
                  Inl e \<Rightarrow> (Inl e, w4)
                | Inr sm \<Rightarrow>
                    (Inr \<lparr>wf_success = True, qualified = True, reason = None,
                          scoutResult = None,
                          results = [(''scout'', scoutR), (''profiler'', profilerR),
                                     (''valuation'', valuationR), (''compliance'', complianceR)],
                          summary = Some sm\<rparr>, w4)))))))))"

text \<open>
  The object that \<^verbatim>\<open>executeOutreachWorkflow\<close> returns, either
  \<^verbatim>\<open>{success: false, reason, violations}\<close> or
  \<^verbatim>\<open>{success: true, complianceCheck, outreachDraft}\<close>; again \<open>None\<close> is a property that
  the literal does not have or whose value is \<^verbatim>\<open>undefined\<close>.
\<close>

record outreach_result =
  outreach_success :: bool
  outreach_reason :: "string option"
  violations :: "json option"
  complianceCheck :: "exec_result option"
  outreachDraft :: "exec_result option"

definition executeOutreachWorkflow ::
  "platform \<Rightarrow> json option \<Rightarrow> jsobject \<Rightarrow> world \<Rightarrow> (exn + outreach_result) \<times> world" where
  "executeOutreachWorkflow P companyData context w =
     (case member companyData ''company_id'' of
        Inl e \<Rightarrow> (Inl e, w)
      | Inr company_id \<Rightarrow>
     (case member companyData ''contact'' of
        Inl e \<Rightarrow> (Inl e, w)
      | Inr contact \<Rightarrow>
     (case executeAgent P ''compliance''
             (Some (literal [(''entity_id'', company_id),
                             (''check_type'', Some (JStr ''outreach'')),
                             (''contact_info'', contact)])) [] w of
        (Inl e, w1) \<Rightarrow> (Inl e, w1)
      | (Inr complianceR, w1) \<Rightarrow>
     (case member (output complianceR) ''approved'' of
        Inl e \<Rightarrow> (Inl e, w1)
      | Inr approved \<Rightarrow>
          if \<not> truthy_opt approved
          then (case member (output complianceR) ''violations'' of
                  Inl e \<Rightarrow> (Inl e, w1)
                | Inr vio \<Rightarrow>
                    (Inr \<lparr>outreach_success = False,
                          outreach_reason = Some ''Outreach not approved by compliance'',
                          violations = vio, complianceCheck = None, outreachDraft = None\<rparr>, w1))
          else (case executeAgent P ''outreach'' companyData
                       (AList.update ''complianceApproved'' (Some (JBool True)) context) w1 of
                  (Inl e, w2) \<Rightarrow> (Inl e, w2)
                | (Inr outreachR, w2) \<Rightarrow>
                    (Inr \<lparr>outreach_success = True, outreach_reason = None,
                          violations = None, complianceCheck = Some complianceR,
                          outreachDraft = Some outreachR\<rparr>, w2))))))"

text \<open>\<^verbatim>\<open>executeDiligenceWorkflow\<close> and \<^verbatim>\<open>executeIntegrationWorkflow\<close> return
  \<^verbatim>\<open>{success: true, diligenceReport}\<close> and \<^verbatim>\<open>{success: true, integrationPlan}\<close>: the
  flag and the agent's result.\<close>

definition executeDiligenceWorkflow ::
  "platform \<Rightarrow> json option \<Rightarrow> json option \<Rightarrow> world \<Rightarrow> (exn + bool \<times> exec_result) \<times> world" where
  "executeDiligenceWorkflow P companyData documents w =
     (case member companyData ''company_id'' of
        Inl e \<Rightarrow> (Inl e, w)
      | Inr company_id \<Rightarrow>
     (case member companyData ''vertical'' of
        Inl e \<Rightarrow> (Inl e, w)
      | Inr vertical \<Rightarrow>
     (case executeAgent P ''diligence''
             (Some (literal [(''company_id'', company_id),
                             (''documents'', Some (case documents of None \<Rightarrow> JArr [] | Some d \<Rightarrow> d)),
                             (''vertical'', vertical)])) [] w of
        (Inl e, w1) \<Rightarrow> (Inl e, w1)
      | (Inr diligenceR, w1) \<Rightarrow> (Inr (True, diligenceR), w1))))"

definition executeIntegrationWorkflow ::
  "platform \<Rightarrow> json option \<Rightarrow> world \<Rightarrow> (exn + bool \<times> exec_result) \<times> world" where
  "executeIntegrationWorkflow P dealData w =
     (case executeAgent P ''integrator'' dealData [] w of
        (Inl e, w1) \<Rightarrow> (Inl e, w1)
      | (Inr integrationR, w1) \<Rightarrow> (Inr (True, integrationR), w1))"

section \<open>Sample runs\<close>

text \<open>
  A platform for the examples below. \<open>sample_JSON_parse\<close> is \<^verbatim>\<open>JSON.parse\<close> on the
  texts that the examples use: the listed documents parse to the values given, and the
  other texts of the examples are no JSON documents. The client answers the \<open>n\<close>-th
  request with the \<open>n\<close>-th entry of a script and fails with a connection error
  afterwards. No example compares anything but a number with 50.
\<close>

definition sample_JSON_parse :: "string \<Rightarrow> json option" where
  \<open>sample_JSON_parse t =
     (if t = ''{}'' then Some (JObj [])
      else if t = ''{"score": 30}'' then Some (JObj [(''score'', JNum (Fin 30))])
      else if t = ''{"score": 87}'' then Some (JObj [(''score'', JNum (Fin 87))])
      else if t = ''{"approved": false, "violations": ["unlicensed"]}''
        then Some (JObj [(''approved'', JBool False), (''violations'', JArr [JStr ''unlicensed''])])
      else if t = ''{"approved": true, "violations": []}''
        then Some (JObj [(''approved'', JBool True), (''violations'', JArr [])])
      else None)\<close>

definition script :: "send_result list \<Rightarrow> nat \<Rightarrow> send_result" where
  "script rs n = (if n < length rs then rs ! n else SendFailed ''Connection error.'')"

definition sample :: "send_result list \<Rightarrow> platform" where
  "sample rs =
     \<lparr>JSON_parse = sample_JSON_parse, sendMessage = script rs, less_than_50 = (\<lambda>v. Inr False)\<rparr>"

definition fresh :: world where
  "fresh = \<lparr>calls = [], workflowHistory = []\<rparr>"

section \<open>Basic facts about the runner and \<^verbatim>\<open>executeAgent\<close>\<close>

lemma agents_known: "map_of AGENT_CONFIGS k = Some a \<Longrightarrow> agents k = Own a"
  by (simp add: agents_def)

lemma executeAgent_own:
  "agents agentKey = Own a \<Longrightarrow>
   executeAgent P agentKey input context w =
     (Inr (result_of P a (length (calls w))),
      w\<lparr>calls := calls w @ [name a],
        workflowHistory :=
          workflowHistory w @ [(agentKey, success (result_of P a (length (calls w))))]\<rparr>)"
  by (simp add: executeAgent_def execute_def)

lemma result_of_ok:
  "attempt P n = Inr out \<Longrightarrow>
   result_of P a n =
     \<lparr>success = True, agent = name a, role = agent_role a, output = Some out, error = None\<rparr>"
  by (simp add: result_of_def)

lemma result_of_failed:
  "attempt P n = Inl e \<Longrightarrow>
   result_of P a n =
     \<lparr>success = False, agent = name a, role = agent_role a, output = None,
      error = Some (message e)\<rparr>"
  by (simp add: result_of_def)

lemma success_result_of: "success (result_of P a n) = (\<exists>out. attempt P n = Inr out)"
  by (cases "attempt P n") (simp_all add: result_of_def)

lemma role_result_of: "role (result_of P a n) = agent_role a"
  by (cases "attempt P n") (simp_all add: result_of_def)

lemma agent_result_of: "agent (result_of P a n) = name a"
  by (cases "attempt P n") (simp_all add: result_of_def)

section \<open>Unknown agent keys\<close>

text \<open>
  Claim C1, as the code has it. For every key that names no property of the agent table
  (it is not a key of the table, and not a name that the table inherits from
  \<^verbatim>\<open>Object.prototype\<close>), \<^verbatim>\<open>executeAgent\<close> does not return a result object: the guard
  throws \<^verbatim>\<open>Error("Agent '<key>' not found")\<close>, so the promise is rejected. The rejection
  comes before any request to the generation client, and nothing is logged: the state
  is unchanged.
\<close>

theorem executeAgent_unknown_key:
  assumes "map_of AGENT_CONFIGS agentKey = None"
    and "agentKey \<notin> set Object_prototype"
  shows "executeAgent P agentKey input context w = (Inl (not_found agentKey), w)"
  using assms by (simp add: executeAgent_def agents_def)

theorem executeAgent_unknown_key_witness:
  "map_of AGENT_CONFIGS ''janitor'' = None \<and>
   ''janitor'' \<notin> set Object_prototype \<and>
   executeAgent (sample []) ''janitor'' None [] fresh = (Inl (not_found ''janitor''), fresh)"
proof -
  have h1: "map_of AGENT_CONFIGS ''janitor'' = None"
    by (simp add: AGENT_CONFIGS_def)
  have h2: "''janitor'' \<notin> set Object_prototype"
    by (simp add: Object_prototype_def)
  from executeAgent_unknown_key [OF h1 h2, of "sample []" None "[]" fresh] h1 h2
  show ?thesis by simp
qed

text \<open>
  Claim C1 as stated fails: for the key \<^verbatim>\<open>janitor\<close>, which the table does not have, the
  outcome of \<^verbatim>\<open>executeAgent\<close> is a thrown error and not a returned error result.
\<close>

theorem executeAgent_unknown_key_throws:
  "fst (executeAgent (sample []) ''janitor'' None [] fresh) = Inl (not_found ''janitor'')"
  by (simp add: executeAgent_def agents_def AGENT_CONFIGS_def Object_prototype_def)

section \<open>The shape of an execution result\<close>

text \<open>
  Claim C9. For every key of the agent table, every input and context and every outcome
  of the generation client, \<^verbatim>\<open>executeAgent\<close> returns the result object of the runner's
  \<^verbatim>\<open>execute\<close>, and that object has exactly one of \<^verbatim>\<open>output\<close> and \<^verbatim>\<open>error\<close>: the
  output and no error message when \<^verbatim>\<open>success\<close> is true, the error message and no
  output when it is false.
\<close>

theorem executeAgent_one_of:
  assumes "map_of AGENT_CONFIGS agentKey = Some a"
  shows "\<exists>r w'. executeAgent P agentKey input context w = (Inr r, w') \<and>
                 r = fst (execute P a input context w) \<and>
                 (if success r then output r \<noteq> None \<and> error r = None
                  else output r = None \<and> error r \<noteq> None)"
  using assms
  by (simp add: executeAgent_def agents_def execute_def result_of_def split: sum.splits)

theorem executeAgent_one_of_witness:
  "map_of AGENT_CONFIGS ''scout'' =
     Some \<lparr>name = ''Scout Agent'', agent_role = ''target_discovery''\<rparr> \<and>
   (\<exists>r w'. executeAgent (sample [SendOk (Some ''{}'')]) ''scout'' None [] fresh
              = (Inr r, w') \<and>
            r = fst (execute (sample [SendOk (Some ''{}'')])
                       \<lparr>name = ''Scout Agent'', agent_role = ''target_discovery''\<rparr> None [] fresh) \<and>
            (if success r then output r \<noteq> None \<and> error r = None
             else output r = None \<and> error r \<noteq> None))"
proof -
  have h: "map_of AGENT_CONFIGS ''scout'' =
      Some \<lparr>name = ''Scout Agent'', agent_role = ''target_discovery''\<rparr>"
    by (simp add: AGENT_CONFIGS_def)
  from executeAgent_one_of [OF h] h show ?thesis by blast
qed

section \<open>The fallback wrapper\<close>

text \<open>
  Claim C5. For every response text on which \<^verbatim>\<open>JSON.parse\<close> fails for the whole text,
  for the interior of the fenced block (when there is one) and for the outer brace span
  (when there is one), \<^verbatim>\<open>_parseResponse\<close> returns, and does not throw, the wrapper whose
  first property holds the input text unchanged and whose \<^verbatim>\<open>parsed\<close> is false. The
  property that holds the text is named \<^verbatim>\<open>rawResponse\<close> in the code.
\<close>

theorem parseResponse_fallback:
  assumes "JSON_parse P text = None"
    and "case jsonMatch text of None \<Rightarrow> True | Some cap \<Rightarrow> JSON_parse P cap = None"
    and "case objectMatch text of None \<Rightarrow> True | Some m \<Rightarrow> JSON_parse P m = None"
  shows "parseResponse P (Some text) =
           Inr (JObj [(''rawResponse'', JStr text), (''parsed'', JBool False)])"
  using assms by (auto simp add: parseResponse_def parse_or_null_def split: option.splits)

theorem parseResponse_fallback_witness:
  \<open>JSON_parse (sample []) ''```json oops ``` {oops}'' = None \<and>
   (case jsonMatch ''```json oops ``` {oops}'' of
      None \<Rightarrow> True | Some cap \<Rightarrow> JSON_parse (sample []) cap = None) \<and>
   (case objectMatch ''```json oops ``` {oops}'' of
      None \<Rightarrow> True | Some m \<Rightarrow> JSON_parse (sample []) m = None) \<and>
   jsonMatch ''```json oops ``` {oops}'' = Some ''oops'' \<and>
   objectMatch ''```json oops ``` {oops}'' = Some ''{oops}'' \<and>
   parseResponse (sample []) (Some ''```json oops ``` {oops}'') =
     Inr (JObj [(''rawResponse'', JStr ''```json oops ``` {oops}''), (''parsed'', JBool False)])\<close>
proof -
  have jm: \<open>jsonMatch ''```json oops ``` {oops}'' = Some ''oops''\<close>
    by (simp add: fence_at_def starts_with_def closes_here_def is_space_def)
  have om: \<open>objectMatch ''```json oops ``` {oops}'' = Some ''{oops}''\<close>
    by simp
  have h1: \<open>JSON_parse (sample []) ''```json oops ``` {oops}'' = None\<close>
    by (simp add: sample_def sample_JSON_parse_def)
  have h2: \<open>case jsonMatch ''```json oops ``` {oops}'' of
      None \<Rightarrow> True | Some cap \<Rightarrow> JSON_parse (sample []) cap = None\<close>
    unfolding jm by (simp add: sample_def sample_JSON_parse_def)
  have h3: \<open>case objectMatch ''```json oops ``` {oops}'' of
      None \<Rightarrow> True | Some m \<Rightarrow> JSON_parse (sample []) m = None\<close>
    unfolding om by (simp add: sample_def sample_JSON_parse_def)
  from parseResponse_fallback [OF h1 h2 h3] h1 h2 h3 jm om show ?thesis by blast
qed

section \<open>The pipeline stops at the first failing step\<close>

lemma pipeline_loop_first_failure:
  assumes "\<forall>i<length pre. map_of AGENT_CONFIGS (pre ! i) \<noteq> None \<and>
             (\<exists>out. attempt P (length (calls w) + i) = Inr out)"
    and "map_of AGENT_CONFIGS k = Some a"
    and "attempt P (length (calls w) + length pre) = Inl e"
  shows "\<exists>rs w'. pipeline_loop P (pre @ k # post) acc cur ctx w =
            (Inr (PipelineFailed (name a) (acc @ rs) (Some (message e))), w') \<and>
          length rs = Suc (length pre) \<and>
          calls w' = calls w @ map (\<lambda>k. name (the (map_of AGENT_CONFIGS k))) (pre @ [k])"
  using assms
proof (induction pre arbitrary: w acc cur ctx)
  case Nil
  then show ?case
    by (simp add: executeAgent_own [OF agents_known] result_of_failed)
next
  case (Cons p ps)
  from Cons.prems(1) obtain b out where b: "map_of AGENT_CONFIGS p = Some b"
    and out: "attempt P (length (calls w)) = Inr out"
    by fastforce
  let ?r = "result_of P b (length (calls w))"
  let ?w1 = "w\<lparr>calls := calls w @ [name b],
        workflowHistory := workflowHistory w @ [(p, success ?r)]\<rparr>"
  have steps: "\<forall>i<length ps. map_of AGENT_CONFIGS (ps ! i) \<noteq> None \<and>
       (\<exists>out. attempt P (length (calls ?w1) + i) = Inr out)"
  proof (intro allI impI)
    fix i assume "i < length ps"
    then have "Suc i < length (p # ps)" by simp
    from Cons.prems(1) [rule_format, OF this]
    show "map_of AGENT_CONFIGS (ps ! i) \<noteq> None \<and>
       (\<exists>out. attempt P (length (calls ?w1) + i) = Inr out)" by simp
  qed
  have failing: "attempt P (length (calls ?w1) + length ps) = Inl e"
    using Cons.prems(3) by simp
  from Cons.IH [OF steps Cons.prems(2) failing,
      of "acc @ [?r]" "output ?r" "AList.update (role ?r) (output ?r) ctx"]
  obtain rs w' where rec: "pipeline_loop P (ps @ k # post) (acc @ [?r]) (output ?r)
        (AList.update (role ?r) (output ?r) ctx) ?w1 =
      (Inr (PipelineFailed (name a) ((acc @ [?r]) @ rs) (Some (message e))), w')"
    and len: "length rs = Suc (length ps)"
    and cs: "calls w' = calls ?w1 @ map (\<lambda>k. name (the (map_of AGENT_CONFIGS k))) (ps @ [k])"
    by blast
  have ok: "success ?r" using out by (simp add: success_result_of)
  have "pipeline_loop P ((p # ps) @ k # post) acc cur ctx w =
      (Inr (PipelineFailed (name a) (acc @ (?r # rs)) (Some (message e))), w')"
    using rec ok by (simp add: executeAgent_own [OF agents_known [OF b]])
  moreover have "length (?r # rs) = Suc (length (p # ps))" using len by simp
  moreover have "calls w' =
      calls w @ map (\<lambda>k. name (the (map_of AGENT_CONFIGS k))) ((p # ps) @ [k])"
    using cs b by simp
  ultimately show ?case by blast
qed

text \<open>
  Claim C3. Take a sequence of keys \<open>pre @ k # post\<close> in which every step of \<open>pre\<close> names
  an agent and succeeds, and step \<open>k\<close> names the agent \<open>a\<close> and fails with the exception
  \<open>e\<close> in its runner. Then \<^verbatim>\<open>executePipeline\<close> returns the object with \<^verbatim>\<open>success\<close> false,
  \<^verbatim>\<open>failedAt\<close> the name of \<open>a\<close> and \<^verbatim>\<open>error\<close> the message of \<open>e\<close>; it holds one result per
  step up to \<open>k\<close>; and the requests sent are those of the agents of \<open>pre\<close> and of \<open>a\<close>, in
  this order, so that no agent of \<open>post\<close> is invoked (\<open>post\<close> is arbitrary, the sequence is
  not empty).
\<close>

theorem executePipeline_stops_at_first_failure:
  assumes "\<forall>i<length pre. map_of AGENT_CONFIGS (pre ! i) \<noteq> None \<and>
             (\<exists>out. attempt P (length (calls w) + i) = Inr out)"
    and "map_of AGENT_CONFIGS k = Some a"
    and "attempt P (length (calls w) + length pre) = Inl e"
  shows "\<exists>res w'. executePipeline P (pre @ k # post) initialInput w = (Inr res, w') \<and>
           pipeline_success res = False \<and>
           failedAt res = Some (name a) \<and>
           pipeline_error res = Some (message e) \<and>
           length (pipeline_results res) = Suc (length pre) \<and>
           calls w' = calls w @ map (\<lambda>k. name (the (map_of AGENT_CONFIGS k))) (pre @ [k])"
proof -
  from pipeline_loop_first_failure [OF assms, of post "[]" initialInput "[]"]
  obtain rs w' where "pipeline_loop P (pre @ k # post) [] initialInput [] w =
            (Inr (PipelineFailed (name a) ([] @ rs) (Some (message e))), w')"
    and "length rs = Suc (length pre)"
    and "calls w' = calls w @ map (\<lambda>k. name (the (map_of AGENT_CONFIGS k))) (pre @ [k])"
    by blast
  then show ?thesis by (simp add: executePipeline_def)
qed

theorem executePipeline_stops_at_first_failure_witness:
  "map_of AGENT_CONFIGS ''scout'' \<noteq> None \<and>
   attempt (sample [SendOk (Some ''{}''), SendFailed ''overloaded'']) 0 = Inr (JObj []) \<and>
   map_of AGENT_CONFIGS ''profiler'' =
     Some \<lparr>name = ''Profiler Agent'', agent_role = ''company_enrichment''\<rparr> \<and>
   attempt (sample [SendOk (Some ''{}''), SendFailed ''overloaded'']) 1 =
     Inl (Error ''overloaded'') \<and>
   (\<exists>res w'. executePipeline (sample [SendOk (Some ''{}''), SendFailed ''overloaded''])
                [''scout'', ''profiler'', ''valuation''] None fresh = (Inr res, w') \<and>
              pipeline_success res = False \<and>
              failedAt res = Some ''Profiler Agent'' \<and>
              pipeline_error res = Some ''overloaded'' \<and>
              length (pipeline_results res) = 2 \<and>
              calls w' = [''Scout Agent'', ''Profiler Agent''])"
proof -
  let ?P = "sample [SendOk (Some ''{}''), SendFailed ''overloaded'']"
  have a0: "attempt ?P 0 = Inr (JObj [])"
    by (simp add: attempt_def sample_def script_def parseResponse_def sample_JSON_parse_def)
  have a1: "attempt ?P 1 = Inl (Error ''overloaded'')"
    by (simp add: attempt_def sample_def script_def)
  have h1: "\<forall>i<length [''scout'']. map_of AGENT_CONFIGS ([''scout''] ! i) \<noteq> None \<and>
             (\<exists>out. attempt ?P (length (calls fresh) + i) = Inr out)"
    using a0 by (simp add: AGENT_CONFIGS_def fresh_def)
  have h2: "map_of AGENT_CONFIGS ''profiler'' =
      Some \<lparr>name = ''Profiler Agent'', agent_role = ''company_enrichment''\<rparr>"
    by (simp add: AGENT_CONFIGS_def)
  have h3: "attempt ?P (length (calls fresh) + length [''scout'']) = Inl (Error ''overloaded'')"
    using a1 by (simp add: fresh_def)
  have nm: "map (\<lambda>k. name (the (map_of AGENT_CONFIGS k))) ([''scout''] @ [''profiler'']) =
      [''Scout Agent'', ''Profiler Agent'']"
    by (simp add: AGENT_CONFIGS_def)
  from executePipeline_stops_at_first_failure [OF h1 h2 h3, of "[''valuation'']" None]
  obtain res w' where
    "executePipeline ?P ([''scout''] @ ''profiler'' # [''valuation'']) None fresh = (Inr res, w')"
    "pipeline_success res = False"
    "failedAt res = Some (name \<lparr>name = ''Profiler Agent'', agent_role = ''company_enrichment''\<rparr>)"
    "pipeline_error res = Some (message (Error ''overloaded''))"
    "length (pipeline_results res) = Suc (length [''scout''])"
    "calls w' = calls fresh @ map (\<lambda>k. name (the (map_of AGENT_CONFIGS k))) ([''scout''] @ [''profiler''])"
    by blast
  then have "executePipeline ?P [''scout'', ''profiler'', ''valuation''] None fresh = (Inr res, w') \<and>
              pipeline_success res = False \<and>
              failedAt res = Some ''Profiler Agent'' \<and>
              pipeline_error res = Some ''overloaded'' \<and>
              length (pipeline_results res) = 2 \<and>
              calls w' = [''Scout Agent'', ''Profiler Agent'']"
    unfolding nm by (simp add: fresh_def)
  moreover have "map_of AGENT_CONFIGS ''scout'' \<noteq> None"
    by (simp add: AGENT_CONFIGS_def)
  ultimately show ?thesis using a0 a1 h2 by blast
qed

section \<open>The parallel fan-out runs every agent\<close>

lemma role_determines_key:
  assumes "map_of AGENT_CONFIGS k = Some a" and "map_of AGENT_CONFIGS k' = Some a'"
    and "agent_role a = agent_role a'"
  shows "k = k'"
  using assms by (auto simp add: AGENT_CONFIGS_def split: if_splits)

lemma Promise_all_resolved: "Promise_all (map (Inr \<circ> f) xs) = Inr (map f xs)"
  by (induction xs) simp_all

lemma map_executeAgent_known:
  assumes "\<forall>k\<in>set keys. map_of AGENT_CONFIGS k \<noteq> None"
  shows "\<exists>w'. map_executeAgent P keys input ctx w =
           (map Inr (map (\<lambda>(i, k). result_of P (the (map_of AGENT_CONFIGS k)) i)
                      (enumerate (length (calls w)) keys)), w') \<and>
         calls w' = calls w @ map (\<lambda>k. name (the (map_of AGENT_CONFIGS k))) keys"
  using assms
proof (induction keys arbitrary: w)
  case Nil
  then show ?case by simp
next
  case (Cons k ks)
  then obtain a where a: "map_of AGENT_CONFIGS k = Some a" by auto
  let ?w1 = "w\<lparr>calls := calls w @ [name a],
        workflowHistory :=
          workflowHistory w @ [(k, success (result_of P a (length (calls w))))]\<rparr>"
  from Cons.prems have "\<forall>k\<in>set ks. map_of AGENT_CONFIGS k \<noteq> None" by simp
  from Cons.IH [OF this, of ?w1] obtain w' where
    rec: "map_executeAgent P ks input ctx ?w1 =
           (map Inr (map (\<lambda>(i, k). result_of P (the (map_of AGENT_CONFIGS k)) i)
                      (enumerate (length (calls ?w1)) ks)), w')"
    and cs: "calls w' = calls ?w1 @ map (\<lambda>k. name (the (map_of AGENT_CONFIGS k))) ks"
    by blast
  have "map_executeAgent P (k # ks) input ctx w =
           (map Inr (map (\<lambda>(i, k). result_of P (the (map_of AGENT_CONFIGS k)) i)
                      (enumerate (length (calls w)) (k # ks))), w')"
    using rec a by (simp add: executeAgent_own [OF agents_known [OF a]])
  moreover have "calls w' = calls w @ map (\<lambda>k. name (the (map_of AGENT_CONFIGS k))) (k # ks)"
    using cs a by simp
  ultimately show ?case by blast
qed

lemma outputs_untouched:
  "k \<notin> role ` set rs \<Longrightarrow>
   map_of (fold (\<lambda>r acc. AList.update (role r) (output r) acc) rs acc) k = map_of acc k"
  by (induction rs arbitrary: acc) (simp_all add: update_conv')

lemma outputs_lookup:
  "distinct (map role rs) \<Longrightarrow> r \<in> set rs \<Longrightarrow>
   map_of (fold (\<lambda>r acc. AList.update (role r) (output r) acc) rs acc) (role r) = Some (output r)"
proof (induction rs arbitrary: acc)
  case Nil
  then show ?case by simp
next
  case (Cons x xs)
  show ?case
  proof (cases "r = x")
    case True
    with Cons.prems have "role x \<notin> role ` set xs" by simp
    then show ?thesis using True by (simp add: outputs_untouched update_conv')
  next
    case False
    with Cons.prems have "r \<in> set xs" "distinct (map role xs)" by simp_all
    then show ?thesis using Cons.IH by simp
  qed
qed

lemma roles_distinct:
  assumes "distinct keys" and "\<forall>k\<in>set keys. map_of AGENT_CONFIGS k \<noteq> None"
  shows "distinct (map role (map (\<lambda>(i, k). result_of P (the (map_of AGENT_CONFIGS k)) i)
                      (enumerate n keys)))"
proof -
  have eq: "map role (map (\<lambda>(i, k). result_of P (the (map_of AGENT_CONFIGS k)) i)
                      (enumerate n keys)) =
        map (\<lambda>k. agent_role (the (map_of AGENT_CONFIGS k))) keys"
    by (induction keys arbitrary: n) (simp_all add: role_result_of)
  have "inj_on (\<lambda>k. agent_role (the (map_of AGENT_CONFIGS k))) (set keys)"
  proof (rule inj_onI)
    fix x y assume x: "x \<in> set keys" and y: "y \<in> set keys"
      and r: "agent_role (the (map_of AGENT_CONFIGS x)) = agent_role (the (map_of AGENT_CONFIGS y))"
    from x assms(2) obtain a where a: "map_of AGENT_CONFIGS x = Some a" by auto
    from y assms(2) obtain b where b: "map_of AGENT_CONFIGS y = Some b" by auto
    from r show "x = y" using role_determines_key [OF a b] by (simp add: a b)
  qed
  with assms(1) show ?thesis unfolding eq by (simp add: distinct_map)
qed

text \<open>
  Claim C4. For every list of distinct keys of the agent table, every input and context
  and every outcome of the generation client, \<^verbatim>\<open>executeParallel\<close> returns: one request is
  sent for every key, in list order, whatever the other agents' outcomes are; the results
  are those of the agents, the \<open>i\<close>-th agent having been answered the \<open>i\<close>-th request;
  \<^verbatim>\<open>success\<close> is the conjunction of the results' \<^verbatim>\<open>success\<close>; and \<^verbatim>\<open>outputs\<close> maps the
  role of every agent that succeeded to its output.
\<close>

theorem executeParallel_runs_all:
  assumes "distinct agentKeys"
    and "\<forall>k\<in>set agentKeys. map_of AGENT_CONFIGS k \<noteq> None"
  shows "\<exists>res w'. executeParallel P agentKeys input context w = (Inr res, w') \<and>
           all_results res =
             map (\<lambda>(i, k). result_of P (the (map_of AGENT_CONFIGS k)) i)
               (enumerate (length (calls w)) agentKeys) \<and>
           calls w' = calls w @ map (\<lambda>k. name (the (map_of AGENT_CONFIGS k))) agentKeys \<and>
           all_success res = (\<forall>r\<in>set (all_results res). success r) \<and>
           (\<forall>r\<in>set (all_results res).
              success r \<longrightarrow> map_of (outputs res) (role r) = Some (output r))"
proof -
  let ?rs = "map (\<lambda>(i, k). result_of P (the (map_of AGENT_CONFIGS k)) i)
               (enumerate (length (calls w)) agentKeys)"
  from map_executeAgent_known [OF assms(2), of P input "context" w] obtain w' where
    m: "map_executeAgent P agentKeys input context w = (map Inr ?rs, w')"
    and cs: "calls w' = calls w @ map (\<lambda>k. name (the (map_of AGENT_CONFIGS k))) agentKeys"
    by blast
  let ?res = "\<lparr>all_success = list_all success ?rs, all_results = ?rs,
               outputs = fold (\<lambda>r acc. AList.update (role r) (output r) acc) ?rs []\<rparr>"
  have run: "executeParallel P agentKeys input context w = (Inr ?res, w')"
    by (simp add: executeParallel_def m Promise_all_resolved)
  have d: "distinct (map role ?rs)"
    by (rule roles_distinct [OF assms])
  have out: "\<forall>r\<in>set (all_results ?res). success r \<longrightarrow> map_of (outputs ?res) (role r) = Some (output r)"
    using outputs_lookup [OF d] by simp
  have succ: "all_success ?res = (\<forall>r\<in>set (all_results ?res). success r)"
    by (simp add: list_all_iff)
  have ar: "all_results ?res = ?rs" by simp
  show ?thesis
    apply (rule exI [of _ ?res])
    apply (rule exI [of _ w'])
    apply (intro conjI)
        apply (rule run)
       apply (rule ar)
      apply (rule cs)
     apply (rule succ)
    apply (rule out)
    done
qed

theorem executeParallel_runs_all_witness:
  "distinct [''scout'', ''profiler''] \<and>
   map_of AGENT_CONFIGS ''scout'' \<noteq> None \<and> map_of AGENT_CONFIGS ''profiler'' \<noteq> None \<and>
   attempt (sample [SendFailed ''overloaded'', SendOk (Some ''{}'')]) 0 = Inl (Error ''overloaded'') \<and>
   attempt (sample [SendFailed ''overloaded'', SendOk (Some ''{}'')]) 1 = Inr (JObj []) \<and>
   (\<exists>res w'. executeParallel (sample [SendFailed ''overloaded'', SendOk (Some ''{}'')])
                [''scout'', ''profiler''] None [] fresh = (Inr res, w') \<and>
              length (all_results res) = 2 \<and>
              all_success res = False \<and>
              map_of (outputs res) ''company_enrichment'' = Some (Some (JObj [])) \<and>
              calls w' = [''Scout Agent'', ''Profiler Agent''])"
proof -
  let ?P = "sample [SendFailed ''overloaded'', SendOk (Some ''{}'')]"
  let ?scout = "\<lparr>name = ''Scout Agent'', agent_role = ''target_discovery''\<rparr>"
  let ?profiler = "\<lparr>name = ''Profiler Agent'', agent_role = ''company_enrichment''\<rparr>"
  have a0: "attempt ?P 0 = Inl (Error ''overloaded'')"
    by (simp add: attempt_def sample_def script_def)
  have a1: "attempt ?P 1 = Inr (JObj [])"
    by (simp add: attempt_def sample_def script_def parseResponse_def sample_JSON_parse_def)
  have k1: "map_of AGENT_CONFIGS ''scout'' = Some ?scout"
    by (simp add: AGENT_CONFIGS_def)
  have k2: "map_of AGENT_CONFIGS ''profiler'' = Some ?profiler"
    by (simp add: AGENT_CONFIGS_def)
  have h1: "distinct [''scout'', ''profiler'']" by simp
  have h2: "\<forall>k\<in>set [''scout'', ''profiler'']. map_of AGENT_CONFIGS k \<noteq> None"
    by (simp add: k1 k2)
  have rs: "map (\<lambda>(i, k). result_of ?P (the (map_of AGENT_CONFIGS k)) i)
              (enumerate (length (calls fresh)) [''scout'', ''profiler'']) =
            [result_of ?P ?scout 0, result_of ?P ?profiler 1]"
    by (simp add: fresh_def k1 k2)
  have r0: "result_of ?P ?scout 0 =
      \<lparr>success = False, agent = ''Scout Agent'', role = ''target_discovery'', output = None,
       error = Some ''overloaded''\<rparr>"
    using result_of_failed [OF a0] by simp
  have r1: "result_of ?P ?profiler 1 =
      \<lparr>success = True, agent = ''Profiler Agent'', role = ''company_enrichment'',
       output = Some (JObj []), error = None\<rparr>"
    using result_of_ok [OF a1] by simp
  from executeParallel_runs_all [OF h1 h2, of ?P None "[]" fresh]
  obtain res w' where
    run: "executeParallel ?P [''scout'', ''profiler''] None [] fresh = (Inr res, w')"
    and ar: "all_results res = [result_of ?P ?scout 0, result_of ?P ?profiler 1]"
    and cs: "calls w' = calls fresh @
               map (\<lambda>k. name (the (map_of AGENT_CONFIGS k))) [''scout'', ''profiler'']"
    and su: "all_success res = (\<forall>r\<in>set (all_results res). success r)"
    and ou: "\<forall>r\<in>set (all_results res).
               success r \<longrightarrow> map_of (outputs res) (role r) = Some (output r)"
    unfolding rs by blast
  have "length (all_results res) = 2" using ar by simp
  moreover have "all_success res = False" using su ar r0 by simp
  moreover have "map_of (outputs res) ''company_enrichment'' = Some (Some (JObj []))"
    using ou ar r1 by simp
  moreover have "calls w' = [''Scout Agent'', ''Profiler Agent'']"
    using cs by (simp add: fresh_def k1 k2)
  moreover have "map_of AGENT_CONFIGS ''scout'' \<noteq> None" "map_of AGENT_CONFIGS ''profiler'' \<noteq> None"
    by (simp_all add: k1 k2)
  ultimately show ?thesis using run h1 a0 a1 by blast
qed

section \<open>The sourcing workflow\<close>

lemma agents_scout:
  "agents ''scout'' = Own \<lparr>name = ''Scout Agent'', agent_role = ''target_discovery''\<rparr>"
  by (simp add: agents_def AGENT_CONFIGS_def)

lemma agents_profiler:
  "agents ''profiler'' = Own \<lparr>name = ''Profiler Agent'', agent_role = ''company_enrichment''\<rparr>"
  by (simp add: agents_def AGENT_CONFIGS_def)

lemma agents_valuation:
  "agents ''valuation'' = Own \<lparr>name = ''Valuation Agent'', agent_role = ''business_valuation''\<rparr>"
  by (simp add: agents_def AGENT_CONFIGS_def)

lemma agents_compliance:
  "agents ''compliance'' =
     Own \<lparr>name = ''Compliance Agent'', agent_role = ''regulatory_compliance''\<rparr>"
  by (simp add: agents_def AGENT_CONFIGS_def)

lemma agents_outreach:
  "agents ''outreach'' = Own \<lparr>name = ''Outreach Agent'', agent_role = ''communication''\<rparr>"
  by (simp add: agents_def AGENT_CONFIGS_def)

lemmas workflow_agents =
  executeAgent_own [OF agents_scout] executeAgent_own [OF agents_profiler]
  executeAgent_own [OF agents_valuation] executeAgent_own [OF agents_compliance]
  executeAgent_own [OF agents_outreach]

text \<open>
  Claim C7. When the scout's runner fails, or succeeds with an output whose \<^verbatim>\<open>score\<close> is a
  number below 50, the sourcing workflow returns
  \<^verbatim>\<open>{success: true, qualified: false, reason: 'Did not meet minimum score threshold',
  scoutResult}\<close>, and the only request sent is the scout's: the profiler, valuation and
  compliance agents are not invoked.
\<close>

theorem sourcing_below_threshold:
  assumes "(\<exists>e. attempt P (length (calls w)) = Inl e) \<or>
           (\<exists>out q. attempt P (length (calls w)) = Inr out \<and>
                 member (Some out) ''score'' = Inr (Some (JNum (Fin q))) \<and> q < 50)"
  shows "executeSourcingWorkflow P thesis companyData w =
           (Inr \<lparr>wf_success = True, qualified = False,
                 reason = Some ''Did not meet minimum score threshold'',
                 scoutResult =
                   Some (result_of P
                           \<lparr>name = ''Scout Agent'', agent_role = ''target_discovery''\<rparr>
                           (length (calls w))),
                 results = [], summary = None\<rparr>,
            w\<lparr>calls := calls w @ [''Scout Agent''],
              workflowHistory :=
                workflowHistory w @
                [(''scout'',
                  success (result_of P
                             \<lparr>name = ''Scout Agent'', agent_role = ''target_discovery''\<rparr>
                             (length (calls w))))]\<rparr>)"
  using assms
  by (auto simp add: executeSourcingWorkflow_def workflow_agents result_of_def)

theorem sourcing_below_threshold_witness:
  \<open>attempt (sample [SendOk (Some ''{"score": 30}'')]) 0 = Inr (JObj [(''score'', JNum (Fin 30))]) \<and>
   member (Some (JObj [(''score'', JNum (Fin 30))])) ''score'' = Inr (Some (JNum (Fin 30))) \<and>
   (30::rat) < 50 \<and>
   executeSourcingWorkflow (sample [SendOk (Some ''{"score": 30}'')])
       (Some (JObj [])) (Some (JObj [])) fresh =
     (Inr \<lparr>wf_success = True, qualified = False,
           reason = Some ''Did not meet minimum score threshold'',
           scoutResult =
             Some \<lparr>success = True, agent = ''Scout Agent'', role = ''target_discovery'',
                   output = Some (JObj [(''score'', JNum (Fin 30))]), error = None\<rparr>,
           results = [], summary = None\<rparr>,
      \<lparr>calls = [''Scout Agent''], workflowHistory = [(''scout'', True)]\<rparr>)\<close>
proof -
  let ?P = \<open>sample [SendOk (Some ''{"score": 30}'')]\<close>
  have a0: "attempt ?P 0 = Inr (JObj [(''score'', JNum (Fin 30))])"
    by (simp add: attempt_def sample_def script_def parseResponse_def sample_JSON_parse_def)
  have m: "member (Some (JObj [(''score'', JNum (Fin 30))])) ''score'' = Inr (Some (JNum (Fin 30)))"
    by simp
  have h: "(\<exists>e. attempt ?P (length (calls fresh)) = Inl e) \<or>
           (\<exists>out q. attempt ?P (length (calls fresh)) = Inr out \<and>
                 member (Some out) ''score'' = Inr (Some (JNum (Fin q))) \<and> q < 50)"
    using a0 by (simp add: fresh_def)
  from sourcing_below_threshold [OF h, of "Some (JObj [])" "Some (JObj [])"]
  have "executeSourcingWorkflow ?P (Some (JObj [])) (Some (JObj [])) fresh =
     (Inr \<lparr>wf_success = True, qualified = False,
           reason = Some ''Did not meet minimum score threshold'',
           scoutResult =
             Some \<lparr>success = True, agent = ''Scout Agent'', role = ''target_discovery'',
                   output = Some (JObj [(''score'', JNum (Fin 30))]), error = None\<rparr>,
           results = [], summary = None\<rparr>,
      \<lparr>calls = [''Scout Agent''], workflowHistory = [(''scout'', True)]\<rparr>)"
    by (simp add: fresh_def result_of_ok [OF a0])
  with a0 m show ?thesis by simp
qed

text \<open>
  Claim C8. When the scout succeeds with a numeric \<^verbatim>\<open>score\<close> of at least 50 and the
  compliance agent succeeds with an output whose \<^verbatim>\<open>approved\<close> is false, the workflow
  returns \<^verbatim>\<open>success\<close> true and \<^verbatim>\<open>qualified\<close> false with the reason
  \<^verbatim>\<open>'Failed compliance checks'\<close>; its \<^verbatim>\<open>results.compliance\<close> is the compliance result,
  whose output (with the violations it records) is the agent's; and the requests sent are
  those of the scout, the profiler, the valuation agent and the compliance agent: the
  valuation agent has been invoked, whatever the profiler and the valuation agent answer.
\<close>

theorem sourcing_compliance_denied:
  assumes "attempt P (length (calls w)) = Inr out"
    and "member (Some out) ''score'' = Inr (Some (JNum (Fin q)))"
    and "50 \<le> q"
    and "attempt P (length (calls w) + 3) = Inr cout"
    and "member (Some cout) ''approved'' = Inr (Some (JBool False))"
  shows "\<exists>res w' cr. executeSourcingWorkflow P thesis companyData w = (Inr res, w') \<and>
           wf_success res = True \<and> qualified res = False \<and>
           reason res = Some ''Failed compliance checks'' \<and>
           map_of (results res) ''compliance'' = Some cr \<and>
           output cr = Some cout \<and>
           calls w' = calls w @ [''Scout Agent'', ''Profiler Agent'', ''Valuation Agent'',
                                 ''Compliance Agent'']"
proof -
  have c: "attempt P (Suc (Suc (Suc (length (calls w))))) = Inr cout"
    using assms(4) by (simp add: numeral_3_eq_3)
  show ?thesis
    using assms(1,2,3,5) c
    by (simp add: executeSourcingWorkflow_def workflow_agents result_of_ok)
qed

theorem sourcing_compliance_denied_witness:
  \<open>attempt (sample [SendOk (Some ''{"score": 87}''), SendOk (Some ''{}''),
                    SendFailed ''overloaded'',
                    SendOk (Some ''{"approved": false, "violations": ["unlicensed"]}'')]) 0 =
     Inr (JObj [(''score'', JNum (Fin 87))]) \<and>
   member (Some (JObj [(''score'', JNum (Fin 87))])) ''score'' = Inr (Some (JNum (Fin 87))) \<and>
   (50::rat) \<le> 87 \<and>
   attempt (sample [SendOk (Some ''{"score": 87}''), SendOk (Some ''{}''),
                    SendFailed ''overloaded'',
                    SendOk (Some ''{"approved": false, "violations": ["unlicensed"]}'')]) 3 =
     Inr (JObj [(''approved'', JBool False), (''violations'', JArr [JStr ''unlicensed''])]) \<and>
   member (Some (JObj [(''approved'', JBool False), (''violations'', JArr [JStr ''unlicensed''])]))
     ''approved'' = Inr (Some (JBool False)) \<and>
   (\<exists>res w' cr.
      executeSourcingWorkflow
        (sample [SendOk (Some ''{"score": 87}''), SendOk (Some ''{}''),
                 SendFailed ''overloaded'',
                 SendOk (Some ''{"approved": false, "violations": ["unlicensed"]}'')])
        (Some (JObj [])) (Some (JObj [])) fresh = (Inr res, w') \<and>
      wf_success res = True \<and> qualified res = False \<and>
      reason res = Some ''Failed compliance checks'' \<and>
      map_of (results res) ''compliance'' = Some cr \<and>
      output cr =
        Some (JObj [(''approved'', JBool False), (''violations'', JArr [JStr ''unlicensed''])]) \<and>
      calls w' = [''Scout Agent'', ''Profiler Agent'', ''Valuation Agent'', ''Compliance Agent''])\<close>
proof -
  let ?P = \<open>sample [SendOk (Some ''{"score": 87}''), SendOk (Some ''{}''),
                    SendFailed ''overloaded'',
                    SendOk (Some ''{"approved": false, "violations": ["unlicensed"]}'')]\<close>
  let ?denied = "JObj [(''approved'', JBool False), (''violations'', JArr [JStr ''unlicensed''])]"
  have a0: "attempt ?P 0 = Inr (JObj [(''score'', JNum (Fin 87))])"
    by (simp add: attempt_def sample_def script_def parseResponse_def sample_JSON_parse_def)
  have a3: "attempt ?P 3 = Inr ?denied"
    by (simp add: attempt_def sample_def script_def parseResponse_def sample_JSON_parse_def)
  have h1: "attempt ?P (length (calls fresh)) = Inr (JObj [(''score'', JNum (Fin 87))])"
    using a0 by (simp add: fresh_def)
  have h2: "member (Some (JObj [(''score'', JNum (Fin 87))])) ''score'' = Inr (Some (JNum (Fin 87)))"
    by simp
  have h3: "(50::rat) \<le> 87" by simp
  have h4: "attempt ?P (length (calls fresh) + 3) = Inr ?denied"
    using a3 by (simp add: fresh_def)
  have h5: "member (Some ?denied) ''approved'' = Inr (Some (JBool False))"
    by simp
  from sourcing_compliance_denied [OF h1 h2 h3 h4 h5, of "Some (JObj [])" "Some (JObj [])"]
  have "\<exists>res w' cr.
      executeSourcingWorkflow ?P (Some (JObj [])) (Some (JObj [])) fresh = (Inr res, w') \<and>
      wf_success res = True \<and> qualified res = False \<and>
      reason res = Some ''Failed compliance checks'' \<and>
      map_of (results res) ''compliance'' = Some cr \<and>
      output cr = Some ?denied \<and>
      calls w' = [''Scout Agent'', ''Profiler Agent'', ''Valuation Agent'', ''Compliance Agent'']"
    by (simp add: fresh_def)
  with a0 a3 h2 h3 h5 show ?thesis by blast
qed

lemma sourcing_proceeds:
  assumes "attempt P (length (calls w)) = Inr out"
    and "member (Some out) ''score'' = Inr sc"
    and "lt_50 P sc = Inr False"
  shows "executeSourcingWorkflow P thesis companyData w =
     (let n = length (calls w);
          scoutR = result_of P \<lparr>name = ''Scout Agent'', agent_role = ''target_discovery''\<rparr> n;
          profilerR = result_of P \<lparr>name = ''Profiler Agent'', agent_role = ''company_enrichment''\<rparr> (Suc n);
          valuationR = result_of P \<lparr>name = ''Valuation Agent'', agent_role = ''business_valuation''\<rparr> (Suc (Suc n));
          complianceR = result_of P \<lparr>name = ''Compliance Agent'', agent_role = ''regulatory_compliance''\<rparr> (Suc (Suc (Suc n)));
          w4 = w\<lparr>calls := calls w @ [''Scout Agent'', ''Profiler Agent'', ''Valuation Agent'', ''Compliance Agent''],
                 workflowHistory := workflowHistory w @
                   [(''scout'', True), (''profiler'', success profilerR),
                    (''valuation'', success valuationR), (''compliance'', success complianceR)]\<rparr>
      in case member (output complianceR) ''approved'' of
           Inl e \<Rightarrow> (Inl e, w4)
         | Inr approved \<Rightarrow>
             if \<not> truthy_opt approved
             then (Inr \<lparr>wf_success = True, qualified = False,
                        reason = Some ''Failed compliance checks'',
                        scoutResult = None,
                        results = [(''scout'', scoutR), (''profiler'', profilerR),
                                   (''compliance'', complianceR)],
                        summary = None\<rparr>, w4)
             else (case build_summary scoutR valuationR complianceR of
                     Inl e \<Rightarrow> (Inl e, w4)
                   | Inr sm \<Rightarrow>
                       (Inr \<lparr>wf_success = True, qualified = True, reason = None,
                             scoutResult = None,
                             results = [(''scout'', scoutR), (''profiler'', profilerR),
                                        (''valuation'', valuationR), (''compliance'', complianceR)],
                             summary = Some sm\<rparr>, w4)))"
proof -
  have s: "result_of P \<lparr>name = ''Scout Agent'', agent_role = ''target_discovery''\<rparr> (length (calls w)) =
      \<lparr>success = True, agent = ''Scout Agent'', role = ''target_discovery'', output = Some out, error = None\<rparr>"
    using assms(1) by (simp add: result_of_ok)
  show ?thesis
    unfolding executeSourcingWorkflow_def workflow_agents s Let_def
    using assms(2,3) by (simp split: sum.split)
qed



section \<open>Exceptions that leave a workflow\<close>

text \<open>
  Claim C2 says that no workflow ends with an uncaught exception, whatever the generation
  client does. The outreach workflow reads \<^verbatim>\<open>complianceResult.output.approved\<close> without
  looking at \<^verbatim>\<open>complianceResult.success\<close>: when the client fails (here with a connection
  error), the compliance result has no \<^verbatim>\<open>output\<close> and the read throws a TypeError, which
  leaves \<^verbatim>\<open>executeOutreachWorkflow\<close>.
\<close>

theorem outreach_throws_when_compliance_fails:
  "executeOutreachWorkflow (sample []) (Some (JObj [(''company_id'', JStr ''c-17'')])) [] fresh =
     (Inl (cannot_read ''undefined'' ''approved''),
      \<lparr>calls = [''Compliance Agent''], workflowHistory = [(''compliance'', False)]\<rparr>)"
  by (simp add: executeOutreachWorkflow_def workflow_agents result_of_def attempt_def
        sample_def script_def fresh_def)

text \<open>
  The sourcing workflow has the same gap twice: it reads
  \<^verbatim>\<open>complianceResult.output.approved\<close> of a failed compliance result, and for a scout
  whose response was unstructured and a company that compliance approves, it spreads
  \<^verbatim>\<open>scoutResult.output.risks\<close>, which is \<^verbatim>\<open>undefined\<close>.
\<close>

lemma sourcing_throws_when_compliance_fails:
  \<open>fst (executeSourcingWorkflow (sample [SendOk (Some ''{"score": 87}'')])
          (Some (JObj [])) (Some (JObj [])) fresh) =
     Inl (cannot_read ''undefined'' ''approved'')\<close>
proof -
  let ?P = \<open>sample [SendOk (Some ''{"score": 87}'')]\<close>
  have a0: "attempt ?P (length (calls fresh)) = Inr (JObj [(''score'', JNum (Fin 87))])"
    by (simp add: attempt_def sample_def script_def parseResponse_def sample_JSON_parse_def
          fresh_def)
  have m: "member (Some (JObj [(''score'', JNum (Fin 87))])) ''score'' = Inr (Some (JNum (Fin 87)))"
    by simp
  have lt: "lt_50 ?P (Some (JNum (Fin 87))) = Inr False" by simp
  have a3: "attempt ?P (Suc (Suc (Suc (length (calls fresh))))) = Inl (Error ''Connection error.'')"
    by (simp add: attempt_def sample_def script_def fresh_def)
  show ?thesis
    unfolding sourcing_proceeds [OF a0 m lt] Let_def result_of_failed [OF a3]
    by simp
qed

lemma sourcing_throws_on_unstructured_scout:
  \<open>fst (executeSourcingWorkflow
          (sample [SendOk (Some ''I cannot score this company.''), SendOk (Some ''{}''),
                   SendOk (Some ''{}''),
                   SendOk (Some ''{"approved": true, "violations": []}'')])
          (Some (JObj [])) (Some (JObj [])) fresh) =
     Inl (TypeError ''scoutResult.output.risks is not iterable'')\<close>
proof -
  let ?P = \<open>sample [SendOk (Some ''I cannot score this company.''), SendOk (Some ''{}''),
                    SendOk (Some ''{}''),
                    SendOk (Some ''{"approved": true, "violations": []}'')]\<close>
  let ?raw = "JObj [(''rawResponse'', JStr ''I cannot score this company.''), (''parsed'', JBool False)]"
  have a0: "attempt ?P (length (calls fresh)) = Inr ?raw"
    by (simp add: attempt_def sample_def script_def parseResponse_def sample_JSON_parse_def
          fence_at_def starts_with_def fresh_def)
  have m: "member (Some ?raw) ''score'' = Inr None" by simp
  have lt: "lt_50 ?P None = Inr False" by simp
  have a2: "attempt ?P (Suc (Suc (length (calls fresh)))) = Inr (JObj [])"
    by (simp add: attempt_def sample_def script_def parseResponse_def sample_JSON_parse_def
          fresh_def)
  have a3: "attempt ?P (Suc (Suc (Suc (length (calls fresh))))) =
      Inr (JObj [(''approved'', JBool True), (''violations'', JArr [])])"
    by (simp add: attempt_def sample_def script_def parseResponse_def sample_JSON_parse_def
          fresh_def)
  show ?thesis
    unfolding sourcing_proceeds [OF a0 m lt] Let_def result_of_ok [OF a0] result_of_ok [OF a2]
      result_of_ok [OF a3]
    by (simp add: build_summary_def)
qed

text \<open>
  The two primitives only look at \<^verbatim>\<open>success\<close>, \<^verbatim>\<open>role\<close> and \<^verbatim>\<open>output\<close> of a result,
  which every result has or may lack without harm: over keys of the agent table, a
  pipeline that is not empty and a parallel group return whatever the client does. An
  empty pipeline throws at \<^verbatim>\<open>results[results.length - 1].output\<close>.
\<close>

lemma pipeline_loop_known_returns:
  assumes "\<forall>k\<in>set keys. map_of AGENT_CONFIGS k \<noteq> None" and "keys \<noteq> [] \<or> acc \<noteq> []"
  shows "\<exists>res w'. pipeline_loop P keys acc cur ctx w = (Inr res, w')"
  using assms
proof (induction keys arbitrary: acc cur ctx w)
  case Nil
  then show ?case by (cases acc) simp_all
next
  case (Cons k ks)
  then obtain a where a: "map_of AGENT_CONFIGS k = Some a" by auto
  let ?r = "result_of P a (length (calls w))"
  show ?case
  proof (cases "success ?r")
    case False
    then show ?thesis by (simp add: executeAgent_own [OF agents_known [OF a]])
  next
    case True
    from Cons.prems have "\<forall>k\<in>set ks. map_of AGENT_CONFIGS k \<noteq> None" by simp
    moreover have "ks \<noteq> [] \<or> acc @ [?r] \<noteq> []" by simp
    ultimately have "\<exists>res w'. pipeline_loop P ks (acc @ [?r]) (output ?r)
        (AList.update (role ?r) (output ?r) ctx)
        (w\<lparr>calls := calls w @ [name a],
           workflowHistory := workflowHistory w @ [(k, success ?r)]\<rparr>) = (Inr res, w')"
      by (rule Cons.IH)
    then show ?thesis using True by (simp add: executeAgent_own [OF agents_known [OF a]])
  qed
qed

lemma executePipeline_known_returns:
  assumes "\<forall>k\<in>set agentSequence. map_of AGENT_CONFIGS k \<noteq> None" and "agentSequence \<noteq> []"
  shows "\<exists>res w'. executePipeline P agentSequence initialInput w = (Inr res, w')"
  unfolding executePipeline_def
  using pipeline_loop_known_returns [OF assms(1), of "[]"] assms(2) by simp

lemma executeParallel_known_returns:
  assumes "\<forall>k\<in>set agentKeys. map_of AGENT_CONFIGS k \<noteq> None"
  shows "\<exists>res w'. executeParallel P agentKeys input ctx w = (Inr res, w')"
proof -
  from map_executeAgent_known [OF assms, of P input ctx w] obtain w' where
    "map_executeAgent P agentKeys input ctx w =
       (map Inr (map (\<lambda>(i, k). result_of P (the (map_of AGENT_CONFIGS k)) i)
                   (enumerate (length (calls w)) agentKeys)), w')"
    by blast
  then show ?thesis by (simp add: executeParallel_def Promise_all_resolved)
qed

lemma executePipeline_empty_throws:
  "executePipeline P [] initialInput w = (Inl (cannot_read ''undefined'' ''output''), w)"
  by (simp add: executePipeline_def)

section \<open>The outer brace span\<close>

text \<open>
  The two indices of the specification's wording are what their names say: the least
  index of an opening brace and the greatest index of a closing brace.
\<close>

lemma first_open_is_first:
  assumes "CHR 0x7B \<in> set t"
  shows "first_open t < length t \<and> t ! first_open t = CHR 0x7B \<and>
         (\<forall>k<first_open t. t ! k \<noteq> CHR 0x7B)"
proof -
  have "takeWhile (\<lambda>c. c \<noteq> CHR 0x7B) t \<noteq> t" using assms by simp
  then have "first_open t \<noteq> length t"
    unfolding first_open_def by (metis takeWhile_eq_take take_all order_refl)
  moreover have "first_open t \<le> length t"
    unfolding first_open_def by (rule length_takeWhile_le)
  ultimately have lt: "first_open t < length t" by simp
  then have "t ! first_open t = CHR 0x7B"
    using nth_length_takeWhile [of "\<lambda>c. c \<noteq> CHR 0x7B" t] by (simp add: first_open_def)
  moreover have "\<forall>k<first_open t. t ! k \<noteq> CHR 0x7B"
  proof (intro allI impI)
    fix k assume k: "k < first_open t"
    then have "takeWhile (\<lambda>c. c \<noteq> CHR 0x7B) t ! k \<in> set (takeWhile (\<lambda>c. c \<noteq> CHR 0x7B) t)"
      unfolding first_open_def by (rule nth_mem)
    then have "takeWhile (\<lambda>c. c \<noteq> CHR 0x7B) t ! k \<noteq> CHR 0x7B"
      by (rule set_takeWhileD [THEN conjunct2])
    then show "t ! k \<noteq> CHR 0x7B" using k by (simp add: takeWhile_nth first_open_def)
  qed
  ultimately show ?thesis using lt by simp
qed

lemma last_close_is_last:
  assumes "CHR 0x7D \<in> set t"
  shows "last_close t < length t \<and> t ! last_close t = CHR 0x7D \<and>
         (\<forall>k. last_close t < k \<and> k < length t \<longrightarrow> t ! k \<noteq> CHR 0x7D)"
proof -
  let ?n = "length (takeWhile (\<lambda>c. c \<noteq> CHR 0x7D) (rev t))"
  have "takeWhile (\<lambda>c. c \<noteq> CHR 0x7D) (rev t) \<noteq> rev t" using assms by simp
  then have "?n \<noteq> length (rev t)"
    by (metis takeWhile_eq_take take_all order_refl)
  moreover have "?n \<le> length (rev t)" by (rule length_takeWhile_le)
  ultimately have n: "?n < length t" by simp
  then have lt: "last_close t < length t" by (simp add: last_close_def)
  have "rev t ! ?n = CHR 0x7D"
    using n nth_length_takeWhile [of "\<lambda>c. c \<noteq> CHR 0x7D" "rev t"] by simp
  then have at: "t ! last_close t = CHR 0x7D"
    using n by (simp add: rev_nth last_close_def)
  have "\<forall>k. last_close t < k \<and> k < length t \<longrightarrow> t ! k \<noteq> CHR 0x7D"
  proof (intro allI impI)
    fix k assume k: "last_close t < k \<and> k < length t"
    let ?m = "length t - Suc k"
    have m: "?m < ?n" using k n by (simp add: last_close_def) linarith
    then have "takeWhile (\<lambda>c. c \<noteq> CHR 0x7D) (rev t) ! ?m \<in> set (takeWhile (\<lambda>c. c \<noteq> CHR 0x7D) (rev t))"
      by (rule nth_mem)
    then have "takeWhile (\<lambda>c. c \<noteq> CHR 0x7D) (rev t) ! ?m \<noteq> CHR 0x7D"
      by (rule set_takeWhileD [THEN conjunct2])
    then have "rev t ! ?m \<noteq> CHR 0x7D" using m by (simp add: takeWhile_nth)
    moreover have "rev t ! ?m = t ! k"
    proof -
      have "?m < length t" using k by linarith
      then have "rev t ! ?m = t ! (length t - Suc ?m)" by (rule rev_nth)
      moreover have "length t - Suc ?m = k" using k by linarith
      ultimately show ?thesis by simp
    qed
    ultimately show "t ! k \<noteq> CHR 0x7D" by simp
  qed
  with lt at show ?thesis by simp
qed

text \<open>The two expressions of \<^verbatim>\<open>parseJSON\<close>'s third step, in closed form.\<close>

lemma greedy_close_eq:
  "greedy_close cs =
     (if CHR 0x7D \<in> set cs then Some (rev (dropWhile (\<lambda>c. c \<noteq> CHR 0x7D) (rev cs))) else None)"
proof (induction cs)
  case Nil
  then show ?case by simp
next
  case (Cons c cs)
  show ?case
  proof (cases "CHR 0x7D \<in> set cs")
    case True
    then have "dropWhile (\<lambda>c. c \<noteq> CHR 0x7D) (rev cs @ [c]) =
        dropWhile (\<lambda>c. c \<noteq> CHR 0x7D) (rev cs) @ [c]"
      by (intro dropWhile_append1 [of "CHR 0x7D"]) simp_all
    with True Cons.IH show ?thesis by simp
  next
    case False
    then have d: "dropWhile (\<lambda>c. c \<noteq> CHR 0x7D) (rev cs @ [c]) =
        dropWhile (\<lambda>c. c \<noteq> CHR 0x7D) [c]"
      by (intro dropWhile_append2) auto
    from False Cons.IH have g: "greedy_close cs = None" by simp
    have 1: "greedy_close (c # cs) = (if c = CHR 0x7D then Some [c] else None)"
      using g by simp
    have 2: "rev (dropWhile (\<lambda>c. c \<noteq> CHR 0x7D) (rev (c # cs))) = (if c = CHR 0x7D then [c] else [])"
      unfolding rev.simps d by simp
    have 3: "(CHR 0x7D \<in> set (c # cs)) = (c = CHR 0x7D)" using False by auto
    show ?thesis unfolding 1 2 3 by simp
  qed
qed

lemma objectMatch_no_close: "CHR 0x7D \<notin> set t \<Longrightarrow> objectMatch t = None"
  by (induction t) (simp_all add: greedy_close_eq)

lemma objectMatch_eq:
  "objectMatch t =
     (case dropWhile (\<lambda>c. c \<noteq> CHR 0x7B) t of
        [] \<Rightarrow> None
      | c # cs \<Rightarrow>
          if CHR 0x7D \<in> set cs
          then Some (c # rev (dropWhile (\<lambda>c. c \<noteq> CHR 0x7D) (rev cs)))
          else None)"
proof (induction t)
  case Nil
  then show ?case by simp
next
  case (Cons c cs)
  show ?case
  proof (cases "c = CHR 0x7B")
    case True
    then show ?thesis by (simp add: greedy_close_eq objectMatch_no_close)
  next
    case False
    then show ?thesis using Cons.IH by simp
  qed
qed

lemma rev_dropWhile_rev:
  "rev (dropWhile Q (rev xs)) = take (length xs - length (takeWhile Q (rev xs))) xs"
proof -
  have "rev xs = takeWhile Q (rev xs) @ dropWhile Q (rev xs)" by simp
  then have "rev (rev xs) = rev (takeWhile Q (rev xs) @ dropWhile Q (rev xs))" by simp
  then have xs: "xs = rev (dropWhile Q (rev xs)) @ rev (takeWhile Q (rev xs))"
    by (simp only: rev_rev_ident rev_append)
  have "length xs = length (takeWhile Q (rev xs)) + length (dropWhile Q (rev xs))"
    by (metis length_append length_rev takeWhile_dropWhile_id)
  then have len: "length (rev (dropWhile Q (rev xs))) = length xs - length (takeWhile Q (rev xs))"
    by simp
  have "take (length (rev (dropWhile Q (rev xs)))) xs = rev (dropWhile Q (rev xs))"
    by (subst (2) xs) simp
  then show ?thesis unfolding len by simp
qed

lemma objectMatch_outer_brace_span:
  assumes "i < j" and "j < length t" and "t ! i = CHR 0x7B" and "t ! j = CHR 0x7D"
  shows "objectMatch t = Some (outer_brace_span t)"
proof -
  let ?a = "first_open t"
  let ?cs = "drop (Suc ?a) t"
  let ?k = "length (takeWhile (\<lambda>c. c \<noteq> CHR 0x7D) (rev ?cs))"
  have i: "i < length t" using assms(1,2) by simp
  have a_le: "?a \<le> i"
  proof (rule ccontr)
    assume "\<not> ?a \<le> i"
    then have lt: "i < length (takeWhile (\<lambda>c. c \<noteq> CHR 0x7B) t)" by (simp add: first_open_def)
    then have "takeWhile (\<lambda>c. c \<noteq> CHR 0x7B) t ! i \<in> set (takeWhile (\<lambda>c. c \<noteq> CHR 0x7B) t)"
      by (rule nth_mem)
    then have "takeWhile (\<lambda>c. c \<noteq> CHR 0x7B) t ! i \<noteq> CHR 0x7B"
      by (rule set_takeWhileD [THEN conjunct2])
    then have "t ! i \<noteq> CHR 0x7B" using lt by (simp add: takeWhile_nth)
    with assms(3) show False by simp
  qed
  then have a_lt: "?a < length t" using i by simp
  have at_a: "t ! ?a = CHR 0x7B"
    using a_lt nth_length_takeWhile [of "\<lambda>c. c \<noteq> CHR 0x7B" t] by (simp add: first_open_def)
  have dw: "dropWhile (\<lambda>c. c \<noteq> CHR 0x7B) t = CHR 0x7B # ?cs"
    using a_lt at_a by (simp add: dropWhile_eq_drop first_open_def Cons_nth_drop_Suc [symmetric])
  have "?cs ! (j - Suc ?a) = t ! j" using a_le assms(1,2) by simp
  moreover have "j - Suc ?a < length ?cs" using a_le assms(1,2) by simp
  ultimately have "t ! j \<in> set ?cs" by (metis nth_mem)
  then have close: "CHR 0x7D \<in> set ?cs" using assms(4) by simp
  have om: "objectMatch t = Some (CHR 0x7B # rev (dropWhile (\<lambda>c. c \<noteq> CHR 0x7D) (rev ?cs)))"
    using close by (simp add: objectMatch_eq dw)
  have "t = take (Suc ?a) t @ ?cs" by simp
  then have "rev t = rev (take (Suc ?a) t @ ?cs)" by simp
  then have rt: "rev t = rev ?cs @ rev (take (Suc ?a) t)" by (simp only: rev_append)
  have tw: "takeWhile (\<lambda>c. c \<noteq> CHR 0x7D) (rev t) = takeWhile (\<lambda>c. c \<noteq> CHR 0x7D) (rev ?cs)"
    unfolding rt using close by (intro takeWhile_append1 [of "CHR 0x7D"]) simp_all
  have "takeWhile (\<lambda>c. c \<noteq> CHR 0x7D) (rev ?cs) \<noteq> rev ?cs"
    using close by simp
  then have "?k \<noteq> length (rev ?cs)"
    by (metis takeWhile_eq_take take_all order_refl)
  moreover have "?k \<le> length (rev ?cs)" by (rule length_takeWhile_le)
  ultimately have k_lt: "?k < length ?cs" by simp
  have len: "length t = Suc ?a + length ?cs" using a_lt by simp
  have "Suc (last_close t) - ?a = Suc (length ?cs - ?k)"
    unfolding last_close_def tw using k_lt len by linarith
  then have "outer_brace_span t = take (Suc (length ?cs - ?k)) (CHR 0x7B # ?cs)"
    using a_lt at_a by (simp add: outer_brace_span_def Cons_nth_drop_Suc [symmetric])
  also have "\<dots> = CHR 0x7B # rev (dropWhile (\<lambda>c. c \<noteq> CHR 0x7D) (rev ?cs))"
    by (simp add: rev_dropWhile_rev)
  finally show ?thesis using om by simp
qed

text \<open>
  Claim C6, as the code has it. For every response text on which the whole-text parse
  fails, in which the fenced-block expression finds no block, and which has an opening
  brace at some index and a closing brace at a later one, the third step matches exactly
  the substring from the first opening brace through the last closing brace, and
  \<^verbatim>\<open>parseJSON\<close> returns what \<^verbatim>\<open>JSON.parse\<close> makes of it (\<^verbatim>\<open>null\<close> when it throws).
\<close>

theorem parseJSON_outer_brace_span:
  assumes "JSON_parse P text = None"
    and "jsonMatch text = None"
    and "i < j" and "j < length text"
    and "text ! i = CHR 0x7B" and "text ! j = CHR 0x7D"
  shows "objectMatch text = Some (outer_brace_span text) \<and>
         parseJSON P (Some text) = Inr (parse_or_null P (outer_brace_span text))"
  using assms(1,2) objectMatch_outer_brace_span [OF assms(3-6)] by simp

theorem parseJSON_outer_brace_span_witness:
  "JSON_parse (sample []) ''a {} b {} c'' = None \<and>
   jsonMatch ''a {} b {} c'' = None \<and>
   (2::nat) < 8 \<and> 8 < length ''a {} b {} c'' \<and>
   ''a {} b {} c'' ! 2 = CHR 0x7B \<and> ''a {} b {} c'' ! 8 = CHR 0x7D \<and>
   outer_brace_span ''a {} b {} c'' = ''{} b {}'' \<and>
   objectMatch ''a {} b {} c'' = Some ''{} b {}'' \<and>
   parseJSON (sample []) (Some ''a {} b {} c'') = Inr (parse_or_null (sample []) ''{} b {}'')"
proof -
  have h1: "JSON_parse (sample []) ''a {} b {} c'' = None"
    by (simp add: sample_def sample_JSON_parse_def)
  have h2: "jsonMatch ''a {} b {} c'' = None"
    by (simp add: fence_at_def starts_with_def)
  have h3: "(2::nat) < 8" by simp
  have h4: "8 < length ''a {} b {} c''" by simp
  have h5: "''a {} b {} c'' ! 2 = CHR 0x7B" by simp
  have h6: "''a {} b {} c'' ! 8 = CHR 0x7D" by simp
  have sp: "outer_brace_span ''a {} b {} c'' = ''{} b {}''"
    by (simp add: outer_brace_span_def first_open_def last_close_def)
  from parseJSON_outer_brace_span [OF h1 h2 h3 h4 h5 h6] h1 h2 h3 h4 h5 h6 sp
  show ?thesis by simp
qed

text \<open>
  Claim C6 as stated fails when the fenced-block extraction fails because the block it
  finds does not parse: \<^verbatim>\<open>parseJSON\<close> then returns \<^verbatim>\<open>null\<close> at once, and the outer brace
  span, which parses here, is not tried.
\<close>

theorem parseJSON_fence_failure_skips_brace_span:
  "JSON_parse (sample []) ''```json oops ``` {}'' = None \<and>
   jsonMatch ''```json oops ``` {}'' = Some ''oops'' \<and>
   JSON_parse (sample []) ''oops'' = None \<and>
   outer_brace_span ''```json oops ``` {}'' = ''{}'' \<and>
   JSON_parse (sample []) ''{}'' = Some (JObj []) \<and>
   parseJSON (sample []) (Some ''```json oops ``` {}'') = Inr JNull \<and>
   parseJSON (sample []) (Some ''```json oops ``` {}'') \<noteq>
     Inr (parse_or_null (sample []) (outer_brace_span ''```json oops ``` {}''))"
proof -
  have jm: "jsonMatch ''```json oops ``` {}'' = Some ''oops''"
    by (simp add: fence_at_def starts_with_def closes_here_def is_space_def)
  have sp: "outer_brace_span ''```json oops ``` {}'' = ''{}''"
    by (simp add: outer_brace_span_def first_open_def last_close_def)
  have p1: "JSON_parse (sample []) ''```json oops ``` {}'' = None"
    by (simp add: sample_def sample_JSON_parse_def)
  have p2: "JSON_parse (sample []) ''oops'' = None"
    by (simp add: sample_def sample_JSON_parse_def)
  have p3: "JSON_parse (sample []) ''{}'' = Some (JObj [])"
    by (simp add: sample_def sample_JSON_parse_def)
  have r: "parseJSON (sample []) (Some ''```json oops ``` {}'') = Inr JNull"
    unfolding parseJSON.simps p1 jm by (simp add: parse_or_null_def p2)
  show ?thesis unfolding sp using jm p1 p2 p3 r by (simp add: parse_or_null_def)
qed

end
